theory Spec2Isabelle
  imports Complex_Main "HOL-Library.Word"
begin

section \<open>Dominant-colour extraction of ImmichFrame (colorExtraction utilities)\<close>

text \<open>
  The development follows the TypeScript module of the web client that extracts a dominant
  colour from an image or a video frame. JavaScript numbers are IEEE doubles; here they are
  idealised: integer-valued quantities (bytes, quantised channels, counts, canvas
  coordinates) are \<^typ>\<open>int\<close>, \<^typ>\<open>nat\<close> or bytes, and fractional quantities
  (luminance, saturation, scores, HSL components) are \<^typ>\<open>real\<close>, so rounding errors of
  the double arithmetic are not part of the model. \<open>Math.round\<close> rounds halves upwards,
  which is \<^const>\<open>round\<close>; \<open>Math.floor\<close> is \<^const>\<open>floor\<close>.
\<close>

subsection \<open>Data model\<close>

type_synonym byte = "8 word"

text \<open>One RGBA sample of an \<open>ImageData\<close> buffer: red, green, blue, alpha.\<close>

type_synonym pixel = "byte \<times> byte \<times> byte \<times> byte"

type_synonym rgb_triple = "int \<times> int \<times> int"

record ExtractedColor =
  hex :: string
  rgb :: rgb_triple
  luminance :: real

text \<open>The value stored per key of the frequency map (\<open>colorMap\<close>).\<close>

record ColorData =
  count :: nat
  c_rgb :: rgb_triple
  c_luminance :: real
  saturation :: real

text \<open>
  A field of an options object is absent, present with the value \<open>undefined\<close>, or present
  with a value. Reading an absent field and reading an undefined one both give
  \<open>undefined\<close>; the object spread tells them apart, since it copies every field that is
  present.
\<close>

datatype 'a field = Absent | Undefined | Value 'a

text \<open>
  \<open>ColorExtractionOptions\<close>: every field is optional. The \<open>sampleSize\<close> is a natural
  number, as the side of a canvas is.
\<close>

record ColorExtractionOptions =
  sampleSize :: "nat field"
  fallbackColor :: "string field"
  sampleLowerThird :: "bool field"
  analyzePortraitVideo :: "bool field"
  handleSplitView :: "bool field"
  ignoreBlackBackground :: "bool field"
  enableContrastBoost :: "bool field"
  minSaturation :: "real field"
  maxSaturation :: "real field"
  minLuminance :: "real field"
  maxLuminance :: "real field"
  maxDarkness :: "real field"
  useFallbackOnly :: "bool field"

text \<open>The options object \<open>{}\<close>.\<close>

definition noOptions :: ColorExtractionOptions where
  "noOptions = \<lparr> sampleSize = Absent, fallbackColor = Absent, sampleLowerThird = Absent,
     analyzePortraitVideo = Absent, handleSplitView = Absent, ignoreBlackBackground = Absent,
     enableContrastBoost = Absent, minSaturation = Absent, maxSaturation = Absent,
     minLuminance = Absent, maxLuminance = Absent, maxDarkness = Absent, useFallbackOnly = Absent \<rparr>"

text \<open>
  A destructuring default \<open>{ f = d } = options\<close> and the operator \<open>??\<close>: the default
  stands in for \<open>undefined\<close>, whether the field is absent or undefined.
\<close>

definition orDefault :: "'a field \<Rightarrow> 'a \<Rightarrow> 'a" where
  "orDefault v d = (case v of Value x \<Rightarrow> x | _ \<Rightarrow> d)"

text \<open>\<open>s || d\<close> on an optional string: the empty string is falsy as well.\<close>

definition orElse :: "string field \<Rightarrow> string \<Rightarrow> string" where
  "orElse v d = (case v of Value s \<Rightarrow> if s = [] then d else s | _ \<Rightarrow> d)"

text \<open>Truthiness of an optional boolean and of an optional string.\<close>

definition truthyFlag :: "bool field \<Rightarrow> bool" where
  "truthyFlag v = (v = Value True)"

definition truthyString :: "string field \<Rightarrow> bool" where
  "truthyString v = (case v of Value s \<Rightarrow> s \<noteq> [] | _ \<Rightarrow> False)"

text \<open>The value of a field that a guard has found truthy.\<close>

fun theValue :: "'a field \<Rightarrow> 'a" where
  "theValue (Value x) = x"

text \<open>
  The object spread \<open>{ ...base, ...options }\<close>: a field present in \<open>options\<close> wins, also
  when its value is \<open>undefined\<close>.
\<close>

definition spread :: "ColorExtractionOptions \<Rightarrow> ColorExtractionOptions \<Rightarrow> ColorExtractionOptions" where
  "spread base options =
     \<lparr> sampleSize = (case sampleSize options of Absent \<Rightarrow> sampleSize base | present \<Rightarrow> present),
       fallbackColor = (case fallbackColor options of Absent \<Rightarrow> fallbackColor base | present \<Rightarrow> present),
       sampleLowerThird = (case sampleLowerThird options of Absent \<Rightarrow> sampleLowerThird base | present \<Rightarrow> present),
       analyzePortraitVideo = (case analyzePortraitVideo options of Absent \<Rightarrow> analyzePortraitVideo base | present \<Rightarrow> present),
       handleSplitView = (case handleSplitView options of Absent \<Rightarrow> handleSplitView base | present \<Rightarrow> present),
       ignoreBlackBackground = (case ignoreBlackBackground options of Absent \<Rightarrow> ignoreBlackBackground base | present \<Rightarrow> present),
       enableContrastBoost = (case enableContrastBoost options of Absent \<Rightarrow> enableContrastBoost base | present \<Rightarrow> present),
       minSaturation = (case minSaturation options of Absent \<Rightarrow> minSaturation base | present \<Rightarrow> present),
       maxSaturation = (case maxSaturation options of Absent \<Rightarrow> maxSaturation base | present \<Rightarrow> present),
       minLuminance = (case minLuminance options of Absent \<Rightarrow> minLuminance base | present \<Rightarrow> present),
       maxLuminance = (case maxLuminance options of Absent \<Rightarrow> maxLuminance base | present \<Rightarrow> present),
       maxDarkness = (case maxDarkness options of Absent \<Rightarrow> maxDarkness base | present \<Rightarrow> present),
       useFallbackOnly = (case useFallbackOnly options of Absent \<Rightarrow> useFallbackOnly base | present \<Rightarrow> present) \<rparr>"

subsection \<open>Colour space mathematics\<close>

text \<open>
  \<open>getLuminance(r, g, b)\<close>: the sRGB relative luminance. Every caller passes integer
  channels (quantised bytes, parsed hex pairs, rounded values).
\<close>

definition linearize :: "int \<Rightarrow> real" where
  "linearize c0 =
     (let c = real_of_int c0 / 255 in
      if c \<le> 0.03928 then c / 12.92 else ((c + 0.055) / 1.055) powr 2.4)"

definition getLuminance :: "int \<Rightarrow> int \<Rightarrow> int \<Rightarrow> real" where
  "getLuminance r g b = 0.2126 * linearize r + 0.7152 * linearize g + 0.0722 * linearize b"

definition calculateSaturation :: "int \<Rightarrow> int \<Rightarrow> int \<Rightarrow> real" where
  "calculateSaturation r g b =
     (let mx = real_of_int (max r (max g b)) / 255;
          mn = real_of_int (min r (min g b)) / 255;
          delta = mx - mn
      in if mx = 0 then 0 else delta / mx)"

text \<open>
  \<open>rgbToHsl\<close>. The \<open>switch (max)\<close> takes the first of the cases \<open>r\<close>, \<open>g\<close>, \<open>b\<close> equal
  to \<open>max\<close>. The result is \<open>[h * 360, s, l]\<close>.
\<close>

definition rgbToHsl :: "int \<Rightarrow> int \<Rightarrow> int \<Rightarrow> real \<times> real \<times> real" where
  "rgbToHsl r0 g0 b0 =
     (let r = real_of_int r0 / 255; g = real_of_int g0 / 255; b = real_of_int b0 / 255;
          mx = max r (max g b); mn = min r (min g b);
          l = (mx + mn) / 2
      in if mx \<noteq> mn then
           (let d = mx - mn;
                s = (if l > 0.5 then d / (2 - mx - mn) else d / (mx + mn));
                h = (if mx = r then (g - b) / d + (if g < b then 6 else 0)
                     else if mx = g then (b - r) / d + 2
                     else (r - g) / d + 4)
            in (h / 6 * 360, s, l))
         else (0 * 360, 0, l))"

definition hue2rgb :: "real \<Rightarrow> real \<Rightarrow> real \<Rightarrow> real" where
  "hue2rgb p q t0 =
     (let t1 = (if t0 < 0 then t0 + 1 else t0);
          t = (if t1 > 1 then t1 - 1 else t1)
      in if t < 1/6 then p + (q - p) * 6 * t
         else if t < 1/2 then q
         else if t < 2/3 then p + (q - p) * (2/3 - t) * 6
         else p)"

text \<open>
  \<open>hslToRgb\<close>. The channels are rounded from exact reals. Where the exact product with
  255 is a half-integer (25.5, say), the double that the code computes may lie on the other
  side of the half, and the channel the code returns then differs by one from the channel
  given here; this carries over to \<open>boostColorBrightness\<close>. Lifting (0, 168, 0) to the
  lightness 0.4 is not such a case: its channels are 0 and 204 exactly.
\<close>

definition hslToRgb :: "real \<Rightarrow> real \<Rightarrow> real \<Rightarrow> rgb_triple" where
  "hslToRgb h0 s l =
     (let h = h0 / 360 in
      if s = 0 then (round (l * 255), round (l * 255), round (l * 255))
      else
        (let q = (if l < 0.5 then l * (1 + s) else l + s - l * s);
             p = 2 * l - q
         in (round (hue2rgb p q (h + 1/3) * 255),
             round (hue2rgb p q h * 255),
             round (hue2rgb p q (h - 1/3) * 255))))"

text \<open>\<open>boostColorBrightness\<close>: lift the HSL lightness to \<open>targetLuminance\<close> at least.\<close>

definition boostColorBrightness :: "int \<Rightarrow> int \<Rightarrow> int \<Rightarrow> real \<Rightarrow> rgb_triple" where
  "boostColorBrightness r g b targetLuminance =
     (case rgbToHsl r g b of (h, s, l) \<Rightarrow>
        (case hslToRgb h s (max l targetLuminance) of (br, bg, bb) \<Rightarrow>
           (min 255 (max 0 br), min 255 (max 0 bg), min 255 (max 0 bb))))"

subsection \<open>Hexadecimal strings\<close>

text \<open>
  \<open>Number.prototype.toString(16)\<close> on an integer: lowercase digits, most significant
  first, with a minus sign for a negative number.
\<close>

definition hexDigitChar :: "nat \<Rightarrow> char" where
  "hexDigitChar d = ''0123456789abcdef'' ! d"

fun natToString16 :: "nat \<Rightarrow> string" where
  "natToString16 n =
     (if n < 16 then [hexDigitChar n]
      else natToString16 (n div 16) @ [hexDigitChar (n mod 16)])"

definition toString16 :: "int \<Rightarrow> string" where
  "toString16 n = (if n < 0 then CHR ''-'' # natToString16 (nat (- n)) else natToString16 (nat n))"

text \<open>The local \<open>toHex\<close> of \<open>rgbToHex\<close>, and \<open>rgbToHex\<close> itself.\<close>

definition toHex :: "int \<Rightarrow> string" where
  "toHex n = (let h = toString16 (round (real_of_int n)) in if length h = 1 then CHR ''0'' # h else h)"

definition rgbToHex :: "int \<Rightarrow> int \<Rightarrow> int \<Rightarrow> string" where
  "rgbToHex r g b = CHR ''#'' # toHex r @ toHex g @ toHex b"

text \<open>
  \<open>hexToRgb\<close>: the regular expression \<open>/^#?([a-f\d]{2})([a-f\d]{2})([a-f\d]{2})$/i\<close>
  accepts an optional \<open>#\<close> followed by exactly six hexadecimal digits of either case;
  \<open>parseInt(_, 16)\<close> reads each pair.
\<close>

definition hexDigitValue :: "char \<Rightarrow> int option" where
  "hexDigitValue c = map_of
     [(CHR ''0'', 0), (CHR ''1'', 1), (CHR ''2'', 2), (CHR ''3'', 3), (CHR ''4'', 4),
      (CHR ''5'', 5), (CHR ''6'', 6), (CHR ''7'', 7), (CHR ''8'', 8), (CHR ''9'', 9),
      (CHR ''a'', 10), (CHR ''b'', 11), (CHR ''c'', 12), (CHR ''d'', 13), (CHR ''e'', 14),
      (CHR ''f'', 15),
      (CHR ''A'', 10), (CHR ''B'', 11), (CHR ''C'', 12), (CHR ''D'', 13), (CHR ''E'', 14),
      (CHR ''F'', 15)] c"

definition parseHexPair :: "char \<Rightarrow> char \<Rightarrow> int option" where
  "parseHexPair hi lo =
     (case (hexDigitValue hi, hexDigitValue lo) of
        (Some h, Some l) \<Rightarrow> Some (16 * h + l)
      | _ \<Rightarrow> None)"

definition hexToRgb :: "string \<Rightarrow> rgb_triple option" where
  "hexToRgb hexStr =
     (let body = (case hexStr of [] \<Rightarrow> hexStr
                  | c # cs \<Rightarrow> if c = CHR ''#'' then cs else hexStr)
      in case body of
           [c1, c2, c3, c4, c5, c6] \<Rightarrow>
             (case (parseHexPair c1 c2, parseHexPair c3 c4, parseHexPair c5 c6) of
                (Some r, Some g, Some b) \<Rightarrow> Some (r, g, b)
              | _ \<Rightarrow> None)
         | _ \<Rightarrow> None)"

text \<open>
  \<open>createFallbackColor\<close>: the parsed fallback with its luminance, or the literal gray when
  the string is not a hexadecimal colour.
\<close>

definition createFallbackColor :: "string \<Rightarrow> ExtractedColor" where
  "createFallbackColor fallbackHex =
     (case hexToRgb fallbackHex of
        None \<Rightarrow> \<lparr> hex = ''#6b7280'', rgb = (107, 114, 128), luminance = 0.4 \<rparr>
      | Some (r, g, b) \<Rightarrow> \<lparr> hex = fallbackHex, rgb = (r, g, b), luminance = getLuminance r g b \<rparr>)"

subsection \<open>The browser as seen by the extractor\<close>

text \<open>
  The element handed to \<open>extractDominantColor\<close> is a video, an image or a canvas; only the
  properties the code reads are kept.
\<close>

record video =
  videoWidth :: nat
  videoHeight :: nat
  readyState :: nat

record image =
  complete :: bool
  naturalWidth :: nat
  naturalHeight :: nat

datatype element = HTMLVideoElement video | HTMLImageElement image | HTMLCanvasElement

text \<open>
  What the canvas API does during one call: whether \<open>getContext('2d')\<close> yields a context,
  whether \<open>drawImage\<close> or \<open>getImageData\<close> throw, and the pixel at column \<open>x\<close>, row \<open>y\<close>
  of the \<open>sampleSize \<times> sampleSize\<close> canvas once the element has been drawn onto it.
\<close>

record canvas_env =
  has_ctx :: bool
  draw_throws :: bool
  read_throws :: bool
  pixel_at :: "nat \<Rightarrow> nat \<Rightarrow> pixel"

datatype error = ImageNotLoaded | DrawFailed | ReadFailed

text \<open>
  \<open>ctx.getImageData(sx, sy, sw, sh)\<close>: the pixels of the rectangle row by row. A rectangle
  of zero width or height raises (IndexSizeError), as does an unreadable canvas. The
  \<open>data\<close> array holds four bytes per pixel, so its length is a multiple of four; it is
  kept as a list of pixels.
\<close>

definition getImageData :: "canvas_env \<Rightarrow> nat \<Rightarrow> nat \<Rightarrow> nat \<Rightarrow> nat \<Rightarrow> error + pixel list" where
  "getImageData env sx sy sw sh =
     (if read_throws env \<or> sw = 0 \<or> sh = 0 then Inl ReadFailed
      else Inr (concat (map (\<lambda>j. map (\<lambda>i. pixel_at env (sx + i) (sy + j)) [0..<sw]) [0..<sh])))"

subsection \<open>Frequency analysis\<close>

text \<open>
  The \<open>colorMap\<close> is a JavaScript \<open>Map\<close>, iterated in insertion order: an association list
  with new keys appended. The key string \<open>`${r},${g},${b}`\<close> determines the triple and is
  kept as the triple.
\<close>

type_synonym colorMap = "(rgb_triple \<times> ColorData) list"

text \<open>\<open>Math.floor(c / 24) * 24\<close> on a byte.\<close>

definition quantize :: "byte \<Rightarrow> int" where
  "quantize c = \<lfloor>real_of_int (uint c) / 24\<rfloor> * 24"

definition mapHas :: "colorMap \<Rightarrow> rgb_triple \<Rightarrow> bool" where
  "mapHas m key = (map_of m key \<noteq> None)"

definition incrementCount :: "colorMap \<Rightarrow> rgb_triple \<Rightarrow> colorMap" where
  "incrementCount m key =
     map (\<lambda>(k, v). if k = key then (k, v\<lparr>count := count v + 1\<rparr>) else (k, v)) m"

text \<open>The body of the sampling loop for one pixel.\<close>

definition recordSample :: "bool \<Rightarrow> pixel \<Rightarrow> colorMap \<Rightarrow> colorMap" where
  "recordSample ignoreBlack px m =
     (case px of (r, g, b, alpha) \<Rightarrow>
        if alpha < 128 then m
        else if ignoreBlack \<and> r < 30 \<and> g < 30 \<and> b < 30 then m
        else
          (let quantizedR = quantize r; quantizedG = quantize g; quantizedB = quantize b;
               lum = getLuminance quantizedR quantizedG quantizedB;
               sat = calculateSaturation quantizedR quantizedG quantizedB;
               key = (quantizedR, quantizedG, quantizedB)
           in if mapHas m key then incrementCount m key
              else m @ [(key, \<lparr> count = 1, c_rgb = (quantizedR, quantizedG, quantizedB),
                                c_luminance = lum, saturation = sat \<rparr>)]))"

text \<open>
  The loop \<open>for (i = 0; i < data.length; i += 16)\<close> reads the pixel at byte offset \<open>i\<close>
  and skips the next three pixels.
\<close>

fun sampleLoop :: "bool \<Rightarrow> pixel list \<Rightarrow> colorMap \<Rightarrow> colorMap" where
  "sampleLoop ignoreBlack [] m = m"
| "sampleLoop ignoreBlack (px # rest) m =
     sampleLoop ignoreBlack (drop 3 rest) (recordSample ignoreBlack px m)"

text \<open>
  \<open>analyzeImageData\<close>; the loop of \<open>extractDominantColor\<close> itself is the same code with
  the destructured \<open>ignoreBlackBackground\<close>.
\<close>

definition analyzeImageData :: "pixel list \<Rightarrow> ColorExtractionOptions \<Rightarrow> colorMap" where
  "analyzeImageData imageData options =
     sampleLoop (orDefault (ignoreBlackBackground options) True) imageData []"

subsection \<open>Selection of the optimal colour\<close>

definition totalScore :: "ColorData \<Rightarrow> real" where
  "totalScore colorData =
     (let frequencyScore = min (real (count colorData) / 10) 1;
          saturationScore = min (saturation colorData * 1.5) 1;
          luminanceScore = 1 - \<bar>c_luminance colorData - 0.5\<bar>;
          darknessBonus = (if c_luminance colorData > 0.25 then 1.2 else 1)
      in (frequencyScore * 0.4 + saturationScore * 0.3 + luminanceScore * 0.3) * darknessBonus)"

fun findOptimalLoop :: "colorMap \<Rightarrow> real \<Rightarrow> real \<Rightarrow> ColorData option \<Rightarrow> real \<Rightarrow> ColorData option" where
  "findOptimalLoop [] minL maxL bestColor bestScore = bestColor"
| "findOptimalLoop ((key, colorData) # rest) minL maxL bestColor bestScore =
     (if c_luminance colorData < minL \<or> c_luminance colorData > maxL
      then findOptimalLoop rest minL maxL bestColor bestScore
      else if totalScore colorData > bestScore
      then findOptimalLoop rest minL maxL (Some colorData) (totalScore colorData)
      else findOptimalLoop rest minL maxL bestColor bestScore)"

text \<open>\<open>findOptimalColor\<close>; its last parameter is not used by the body.\<close>

definition findOptimalColor :: "colorMap \<Rightarrow> real \<Rightarrow> real \<Rightarrow> bool \<Rightarrow> ColorData option" where
  "findOptimalColor m minL maxL boost = findOptimalLoop m minL maxL None 0"

text \<open>The final loop of \<open>extractDominantColor\<close> over the counts.\<close>

fun mostFrequentLoop :: "colorMap \<Rightarrow> ColorData option \<Rightarrow> nat \<Rightarrow> ColorData option" where
  "mostFrequentLoop [] bestColor maxCount = bestColor"
| "mostFrequentLoop ((key, colorData) # rest) bestColor maxCount =
     (if count colorData > maxCount
      then mostFrequentLoop rest (Some colorData) (count colorData)
      else mostFrequentLoop rest bestColor maxCount)"

text \<open>
  The three selection steps of \<open>extractDominantColor\<close>: the configured bounds, the bounds
  0.1 and 0.9, the most frequent colour.
\<close>

definition selectBestColor :: "colorMap \<Rightarrow> real \<Rightarrow> real \<Rightarrow> bool \<Rightarrow> ColorData option" where
  "selectBestColor m minL maxL boost =
     (case findOptimalColor m minL maxL boost of
        Some c \<Rightarrow> Some c
      | None \<Rightarrow>
          (case findOptimalColor m 0.1 0.9 boost of
             Some c \<Rightarrow> Some c
           | None \<Rightarrow> mostFrequentLoop m None 0))"

text \<open>
  The end of \<open>extractDominantColor\<close>: the optional contrast boost, the hexadecimal string
  and the recomputed luminance, or the fallback when no colour was found.
\<close>

definition finishColor :: "ColorData option \<Rightarrow> bool \<Rightarrow> string \<Rightarrow> ExtractedColor" where
  "finishColor bestColor boost fallback =
     (case bestColor of
        Some c \<Rightarrow>
          (case c_rgb c of (r, g, b) \<Rightarrow>
             (let finalRgb = (if boost \<and> c_luminance c < 0.3
                              then boostColorBrightness r g b 0.4 else (r, g, b))
              in case finalRgb of (fr, fg, fb) \<Rightarrow>
                   \<lparr> hex = rgbToHex fr fg fb, rgb = finalRgb, luminance = getLuminance fr fg fb \<rparr>))
      | None \<Rightarrow> createFallbackColor fallback)"

subsection \<open>Split view\<close>

definition fromCandidate :: "ColorData \<Rightarrow> ExtractedColor" where
  "fromCandidate c =
     (case c_rgb c of (r, g, b) \<Rightarrow>
        \<lparr> hex = rgbToHex r g b, rgb = (r, g, b), luminance = c_luminance c \<rparr>)"

definition regionScore :: "ColorData \<Rightarrow> real" where
  "regionScore c = saturation c * 0.6 + (1 - \<bar>c_luminance c - 0.5\<bar>) * 0.4"

definition extractFromSplitView ::
    "canvas_env \<Rightarrow> nat \<Rightarrow> ColorExtractionOptions \<Rightarrow> error + ExtractedColor" where
  "extractFromSplitView env sSize options =
     (let halfWidth = nat \<lfloor>real sSize / 2\<rfloor>;
          leftLowerThird = nat \<lfloor>real sSize * 0.67\<rfloor>
      in case getImageData env 0 leftLowerThird halfWidth (sSize - leftLowerThird) of
           Inl e \<Rightarrow> Inl e
         | Inr leftData \<Rightarrow>
        (case getImageData env halfWidth leftLowerThird halfWidth (sSize - leftLowerThird) of
           Inl e \<Rightarrow> Inl e
         | Inr rightData \<Rightarrow>
        (let leftColors = analyzeImageData leftData options;
             rightColors = analyzeImageData rightData options;
             leftBest = findOptimalColor leftColors (orDefault (minLuminance options) 0.2)
                          (orDefault (maxLuminance options) 0.85)
                          (orDefault (enableContrastBoost options) True);
             rightBest = findOptimalColor rightColors (orDefault (minLuminance options) 0.2)
                          (orDefault (maxLuminance options) 0.85)
                          (orDefault (enableContrastBoost options) True)
         in case (leftBest, rightBest) of
              (Some lb, Some rb) \<Rightarrow>
                Inr (fromCandidate (if regionScore lb > regionScore rb then lb else rb))
            | (Some lb, None) \<Rightarrow> Inr (fromCandidate lb)
            | (None, Some rb) \<Rightarrow> Inr (fromCandidate rb)
            | (None, None) \<Rightarrow>
                Inr (createFallbackColor (orDefault (fallbackColor options) ''#4a5568'')))))"

subsection \<open>The extractor\<close>

text \<open>
  The first part of the \<open>try\<close> block: the element is classified and drawn. The pair is
  \<open>(isPortraitVideo, isSplitView)\<close>. A division by a zero height gives \<open>NaN\<close> or
  \<open>Infinity\<close>, neither of which is below 1.
\<close>

definition detectLayout :: "canvas_env \<Rightarrow> element \<Rightarrow> bool \<Rightarrow> bool \<Rightarrow> error + (bool \<times> bool)" where
  "detectLayout env el analyzePortrait handleSplit =
     (case el of
        HTMLVideoElement v \<Rightarrow>
          if draw_throws env then Inl DrawFailed
          else if analyzePortrait
          then Inr (videoHeight v \<noteq> 0 \<and> real (videoWidth v) / real (videoHeight v) < 1, False)
          else Inr (False, False)
      | HTMLImageElement img \<Rightarrow>
          if \<not> complete img \<or> naturalHeight img = 0 then Inl ImageNotLoaded
          else if draw_throws env then Inl DrawFailed
          else Inr (False,
                  handleSplit \<and> real (naturalWidth img) / real (naturalHeight img) > 2.5)
      | HTMLCanvasElement \<Rightarrow>
          if draw_throws env then Inl DrawFailed else Inr (False, False))"

text \<open>
  The sampled rectangle \<open>(offsetX, offsetY, width, height)\<close>, or the split view, in the
  order of the \<open>if\<close> chain.
\<close>

datatype sampling = Region nat nat nat nat | SplitView

definition chooseSampling :: "bool \<Rightarrow> bool \<Rightarrow> nat \<Rightarrow> bool \<Rightarrow> bool \<Rightarrow> bool \<Rightarrow> sampling" where
  "chooseSampling isPortraitVideo isSplitView sSize ignoreBlack handleSplit lowerThird =
     (if isPortraitVideo \<and> ignoreBlack then
        (let centerWidth = nat \<lfloor>real sSize * 0.6\<rfloor>;
             centerHeight = nat \<lfloor>real sSize * 0.8\<rfloor>;
             offsetX = nat \<lfloor>real (sSize - centerWidth) / 2\<rfloor>;
             offsetY = nat \<lfloor>real (sSize - centerHeight) / 2\<rfloor>
         in Region offsetX offsetY centerWidth centerHeight)
      else if isSplitView \<and> handleSplit then SplitView
      else if lowerThird then
        (let lowerThirdStart = nat \<lfloor>real sSize * 0.67\<rfloor>;
             lowerThirdHeight = sSize - lowerThirdStart
         in Region 0 lowerThirdStart sSize lowerThirdHeight)
      else Region 0 0 sSize sSize)"

text \<open>The body of the \<open>try\<close> block; \<open>Inl\<close> is a thrown exception.\<close>

definition extractionBody ::
    "canvas_env \<Rightarrow> element \<Rightarrow> ColorExtractionOptions \<Rightarrow> error + ExtractedColor" where
  "extractionBody env el options =
     (let sSize = orDefault (sampleSize options) 50;
          fallback = orDefault (fallbackColor options) ''#4a5568'';
          lowerThird = orDefault (sampleLowerThird options) True;
          analyzePortrait = orDefault (analyzePortraitVideo options) True;
          handleSplit = orDefault (handleSplitView options) True;
          ignoreBlack = orDefault (ignoreBlackBackground options) True;
          boost = orDefault (enableContrastBoost options) True;
          minL = orDefault (minLuminance options) 0.2;
          maxL = orDefault (maxLuminance options) 0.85
      in case detectLayout env el analyzePortrait handleSplit of
           Inl e \<Rightarrow> Inl e
         | Inr (isPortraitVideo, isSplitView) \<Rightarrow>
        (case chooseSampling isPortraitVideo isSplitView sSize ignoreBlack handleSplit lowerThird of
           SplitView \<Rightarrow> extractFromSplitView env sSize options
         | Region ox oy w h \<Rightarrow>
             (case getImageData env ox oy w h of
                Inl e \<Rightarrow> Inl e
              | Inr imageData \<Rightarrow>
                  Inr (finishColor
                         (selectBestColor (sampleLoop ignoreBlack imageData []) minL maxL boost)
                         boost fallback))))"

definition extractDominantColor ::
    "canvas_env \<Rightarrow> element \<Rightarrow> ColorExtractionOptions \<Rightarrow> ExtractedColor" where
  "extractDominantColor env el options =
     (let fallback = orDefault (fallbackColor options) ''#4a5568'' in
      if \<not> has_ctx env then createFallbackColor fallback
      else case extractionBody env el options of
             Inl e \<Rightarrow> createFallbackColor fallback
           | Inr c \<Rightarrow> c)"

subsection \<open>The two entry points\<close>

definition extractColorFromVideo ::
    "canvas_env \<Rightarrow> video \<Rightarrow> ColorExtractionOptions \<Rightarrow> ExtractedColor" where
  "extractColorFromVideo env videoElement options =
     (if truthyFlag (useFallbackOnly options) \<and> truthyString (fallbackColor options)
      then createFallbackColor (theValue (fallbackColor options))
      else if readyState videoElement < 2
      then createFallbackColor (orElse (fallbackColor options) ''#4a5568'')
      else extractDominantColor env (HTMLVideoElement videoElement)
             (spread (noOptions\<lparr> fallbackColor := Value (orElse (fallbackColor options) ''#4a5568''),
                                  enableContrastBoost := Value True,
                                  ignoreBlackBackground := Value True,
                                  minLuminance := Value 0.25,
                                  maxLuminance := Value 0.8,
                                  analyzePortraitVideo := Value True \<rparr>) options))"

text \<open>
  The promise of \<open>extractColorFromImageUrl\<close> settles once: resolved with a colour or
  rejected. The browser's answer to \<open>img.src = imageUrl\<close> is a parameter: \<open>Some img\<close> when
  \<open>onload\<close> fires with the loaded element, \<open>None\<close> when \<open>onerror\<close> fires.
\<close>

datatype 'a promise = Resolved 'a | Rejected

definition extractColorFromImageUrl ::
    "canvas_env \<Rightarrow> image option \<Rightarrow> string \<Rightarrow> ColorExtractionOptions \<Rightarrow> ExtractedColor promise" where
  "extractColorFromImageUrl env loaded imageUrl options =
     (if truthyFlag (useFallbackOnly options) \<and> truthyString (fallbackColor options)
      then Resolved (createFallbackColor (theValue (fallbackColor options)))
      else if imageUrl = [] \<and> truthyString (fallbackColor options)
      then Resolved (createFallbackColor (theValue (fallbackColor options)))
      else case loaded of
             Some img \<Rightarrow>
               Resolved (extractDominantColor env (HTMLImageElement img)
                 (spread (noOptions\<lparr> fallbackColor := Value (orElse (fallbackColor options) ''#6b7280''),
                                      enableContrastBoost := Value True,
                                      ignoreBlackBackground := Value True \<rparr>) options))
           | None \<Rightarrow>
               if truthyString (fallbackColor options)
               then Resolved (createFallbackColor (theValue (fallbackColor options)))
               else Rejected)"

subsection \<open>The earlier revision\<close>

text \<open>
  The earlier revision of the module has no options. Its \<open>extractDominantColor\<close> returns
  this literal when the canvas has no context and when extraction throws, and its
  \<open>extractColorFromVideo\<close> returns it for a video that is not ready.
\<close>

definition legacyFallback :: ExtractedColor where
  "legacyFallback = \<lparr> hex = ''#4a5568'', rgb = (74, 85, 104), luminance = 0.3 \<rparr>"

subsection \<open>Predicates used in the statements\<close>

text \<open>A sample whose three colour channels are all below 30.\<close>

definition nearBlack :: "pixel \<Rightarrow> bool" where
  "nearBlack px = (case px of (r, g, b, alpha) \<Rightarrow> r < 30 \<and> g < 30 \<and> b < 30)"

text \<open>
  What the sampling loop maintains for every entry of the frequency map: the key is the
  stored triple, its channels are quantised bytes, the count is positive, and luminance and
  saturation are those of the triple.
\<close>

definition validEntry :: "rgb_triple \<times> ColorData \<Rightarrow> bool" where
  "validEntry e =
     (case e of (key, c) \<Rightarrow>
        c_rgb c = key \<and> 0 < count c \<and>
        (case key of (r, g, b) \<Rightarrow>
           0 \<le> r \<and> r \<le> 240 \<and> 0 \<le> g \<and> g \<le> 240 \<and> 0 \<le> b \<and> b \<le> 240 \<and>
           c_luminance c = getLuminance r g b \<and>
           saturation c = calculateSaturation r g b))"

text \<open>A \<open>#\<close> followed by six lowercase hexadecimal digits.\<close>

definition lowerHexDigit :: "char \<Rightarrow> bool" where
  "lowerHexDigit c = (c \<in> set ''0123456789abcdef'')"

definition wellFormedHex :: "string \<Rightarrow> bool" where
  "wellFormedHex s =
     (case s of [] \<Rightarrow> False
      | c # cs \<Rightarrow> c = CHR ''#'' \<and> length cs = 6 \<and> list_all lowerHexDigit cs)"

text \<open>
  The candidates of a map within luminance bounds, a candidate of maximal score among them,
  and a candidate of maximal count.
\<close>

definition candidates :: "colorMap \<Rightarrow> ColorData list" where
  "candidates m = map snd m"

definition inBounds :: "real \<Rightarrow> real \<Rightarrow> ColorData \<Rightarrow> bool" where
  "inBounds lo hi c = (lo \<le> c_luminance c \<and> c_luminance c \<le> hi)"

definition bestScored :: "colorMap \<Rightarrow> real \<Rightarrow> real \<Rightarrow> ColorData \<Rightarrow> bool" where
  "bestScored m lo hi c =
     (c \<in> set (candidates m) \<and> inBounds lo hi c \<and>
      list_all (\<lambda>c'. inBounds lo hi c' \<longrightarrow> totalScore c' \<le> totalScore c) (candidates m))"

definition mostFrequent :: "colorMap \<Rightarrow> ColorData \<Rightarrow> bool" where
  "mostFrequent m c =
     (c \<in> set (candidates m) \<and> list_all (\<lambda>c'. count c' \<le> count c) (candidates m))"

text \<open>
  The \<open>hex\<close> field of a result is either normalised or the configured fallback string
  itself, which \<open>hexToRgb\<close> accepts.
\<close>

definition hexNormalOrVerbatim :: "ColorExtractionOptions \<Rightarrow> ExtractedColor \<Rightarrow> bool" where
  "hexNormalOrVerbatim options res =
     (wellFormedHex (hex res)
      \<or> (fallbackColor options = Value (hex res) \<and> hexToRgb (hex res) \<noteq> None))"

subsection \<open>Concrete inputs\<close>

text \<open>A canvas with a context whose every pixel is transparent black.\<close>

definition blankEnv :: canvas_env where
  "blankEnv = \<lparr> has_ctx = True, draw_throws = False, read_throws = False,
                 pixel_at = (\<lambda>x y. (0, 0, 0, 0)) \<rparr>"

text \<open>An opaque canvas whose every pixel is near black.\<close>

definition blackEnv :: canvas_env where
  "blackEnv = \<lparr> has_ctx = True, draw_throws = False, read_throws = False,
                 pixel_at = (\<lambda>x y. (10, 20, 29, 255)) \<rparr>"

text \<open>A canvas whose pixel buffer cannot be read back.\<close>

definition unreadableEnv :: canvas_env where
  "unreadableEnv = \<lparr> has_ctx = True, draw_throws = False, read_throws = True,
                      pixel_at = (\<lambda>x y. (0, 0, 0, 0)) \<rparr>"

text \<open>A canvas that is transparent except for an opaque white row 4.\<close>

definition lastRowEnv :: canvas_env where
  "lastRowEnv = \<lparr> has_ctx = True, draw_throws = False, read_throws = False,
       pixel_at = (\<lambda>x y. if y = 4 then (255, 255, 255, 255) else (0, 0, 0, 0)) \<rparr>"

definition landscapeVideo :: video where
  "landscapeVideo = \<lparr> videoWidth = 1920, videoHeight = 1080, readyState = 4 \<rparr>"

definition portraitVideo :: video where
  "portraitVideo = \<lparr> videoWidth = 1080, videoHeight = 1920, readyState = 4 \<rparr>"

definition loadedImage :: image where
  "loadedImage = \<lparr> complete = True, naturalWidth = 640, naturalHeight = 480 \<rparr>"

definition keepBlackOptions :: ColorExtractionOptions where
  "keepBlackOptions = noOptions\<lparr> sampleSize := Value 5, ignoreBlackBackground := Value False,
       enableContrastBoost := Value False \<rparr>"

definition fallbackOnlyOptions :: ColorExtractionOptions where
  "fallbackOnlyOptions = noOptions\<lparr> fallbackColor := Value ''#336699'', useFallbackOnly := Value True \<rparr>"

text \<open>An opaque canvas of one dark green, and a loaded image three times as wide as high.\<close>

definition greenEnv :: canvas_env where
  "greenEnv = \<lparr> has_ctx = True, draw_throws = False, read_throws = False,
                 pixel_at = (\<lambda>x y. (0, 170, 0, 255)) \<rparr>"

definition wideImage :: image where
  "wideImage = \<lparr> complete = True, naturalWidth = 300, naturalHeight = 100 \<rparr>"

definition smallCanvasOptions :: ColorExtractionOptions where
  "smallCanvasOptions = noOptions\<lparr> sampleSize := Value 4 \<rparr>"

definition analysisOnlyOptions :: ColorExtractionOptions where
  "analysisOnlyOptions = noOptions\<lparr> sampleSize := Value 5, useFallbackOnly := Value True \<rparr>"

text \<open>An opaque white canvas.\<close>

definition whiteEnv :: canvas_env where
  "whiteEnv = \<lparr> has_ctx = True, draw_throws = False, read_throws = False,
                 pixel_at = (\<lambda>x y. (255, 255, 255, 255)) \<rparr>"

section \<open>Verification\<close>

subsection \<open>Fallback colours\<close>

lemma fallback_336699:
  "createFallbackColor ''#336699'' =
     \<lparr> hex = ''#336699'', rgb = (51, 102, 153), luminance = getLuminance 51 102 153 \<rparr>"
  by (simp add: createFallbackColor_def hexToRgb_def parseHexPair_def hexDigitValue_def)

lemma fallback_4a5568:
  "createFallbackColor ''#4a5568'' =
     \<lparr> hex = ''#4a5568'', rgb = (74, 85, 104), luminance = getLuminance 74 85 104 \<rparr>"
  by (simp add: createFallbackColor_def hexToRgb_def parseHexPair_def hexDigitValue_def)

lemma fallback_6b7280:
  "createFallbackColor ''#6b7280'' =
     \<lparr> hex = ''#6b7280'', rgb = (107, 114, 128), luminance = getLuminance 107 114 128 \<rparr>"
  by (simp add: createFallbackColor_def hexToRgb_def parseHexPair_def hexDigitValue_def)

subsection \<open>Optional fields\<close>

lemma orElse_falsy: "\<not> truthyString v \<Longrightarrow> orElse v d = d"
  by (simp add: truthyString_def orElse_def split: field.splits)

lemma fallback_empty:
  "createFallbackColor [] = \<lparr> hex = ''#6b7280'', rgb = (107, 114, 128), luminance = 0.4 \<rparr>"
  by (simp add: createFallbackColor_def hexToRgb_def)

subsection \<open>The flag \<open>useFallbackOnly\<close>\<close>

text \<open>
  Claim C7, amended. With \<open>useFallbackOnly\<close> set and a non-empty fallback colour
  configured, both entry points return the colour \<open>createFallbackColor\<close> makes from the
  configured string, whatever the canvas, the video, the load outcome and the URL are, so
  no pixel is read; for \<open>#336699\<close> the result is that string with rgb (51, 102, 153) and
  the luminance computed from this triple.
\<close>

theorem useFallbackOnly_short_circuit:
  assumes "useFallbackOnly options = Value True"
    and "fallbackColor options = Value fb" and "fb \<noteq> []"
  shows "extractColorFromVideo env videoElement options = createFallbackColor fb
       \<and> extractColorFromImageUrl env loaded imageUrl options = Resolved (createFallbackColor fb)
       \<and> (fb = ''#336699'' \<longrightarrow>
            createFallbackColor fb =
              \<lparr> hex = ''#336699'', rgb = (51, 102, 153), luminance = getLuminance 51 102 153 \<rparr>)"
  using assms
  by (simp add: extractColorFromVideo_def extractColorFromImageUrl_def truthyFlag_def
      truthyString_def fallback_336699)

theorem useFallbackOnly_short_circuit_witness:
  "extractColorFromVideo unreadableEnv landscapeVideo fallbackOnlyOptions
     = \<lparr> hex = ''#336699'', rgb = (51, 102, 153), luminance = getLuminance 51 102 153 \<rparr>
   \<and> extractColorFromImageUrl unreadableEnv None ''photo.jpg'' fallbackOnlyOptions
     = Resolved \<lparr> hex = ''#336699'', rgb = (51, 102, 153), luminance = getLuminance 51 102 153 \<rparr>"
  using useFallbackOnly_short_circuit
    [of fallbackOnlyOptions "''#336699''" unreadableEnv landscapeVideo None "''photo.jpg''"]
  by (simp add: fallbackOnlyOptions_def noOptions_def)

lemma extractFromSplitView_ignores_useFallbackOnly:
  "extractFromSplitView env n (options\<lparr>useFallbackOnly := u\<rparr>) = extractFromSplitView env n options"
  by (simp add: extractFromSplitView_def analyzeImageData_def Let_def
      split: sum.split option.split)

lemma extractionBody_ignores_useFallbackOnly:
  "extractionBody env el (options\<lparr>useFallbackOnly := u\<rparr>) = extractionBody env el options"
  by (simp add: extractionBody_def extractFromSplitView_ignores_useFallbackOnly Let_def
      split: sum.split prod.split sampling.split)

lemma extractDominantColor_ignores_useFallbackOnly:
  "extractDominantColor env el (options\<lparr>useFallbackOnly := u\<rparr>) = extractDominantColor env el options"
  by (simp add: extractDominantColor_def extractionBody_ignores_useFallbackOnly Let_def)

lemma spread_useFallbackOnly:
  "spread base (options\<lparr>useFallbackOnly := u\<rparr>) =
     (spread base options)\<lparr>useFallbackOnly :=
        (case u of Absent \<Rightarrow> useFallbackOnly base | present \<Rightarrow> present)\<rparr>"
  by (simp add: spread_def)

text \<open>
  Claim C10. Without a configured fallback colour (the field is absent, undefined or the
  empty string) the flag \<open>useFallbackOnly\<close> changes nothing: each entry point gives the
  result it gives with the flag set to false, which for a ready video and for a loaded image
  is the result of \<open>extractDominantColor\<close> on the element.
\<close>

theorem no_fallback_no_short_circuit:
  assumes "\<not> truthyString (fallbackColor options)"
  shows "extractColorFromVideo env videoElement (options\<lparr>useFallbackOnly := Value True\<rparr>)
           = extractColorFromVideo env videoElement (options\<lparr>useFallbackOnly := Value False\<rparr>)
       \<and> extractColorFromImageUrl env loaded imageUrl (options\<lparr>useFallbackOnly := Value True\<rparr>)
           = extractColorFromImageUrl env loaded imageUrl (options\<lparr>useFallbackOnly := Value False\<rparr>)
       \<and> (2 \<le> readyState videoElement \<longrightarrow>
            extractColorFromVideo env videoElement (options\<lparr>useFallbackOnly := Value True\<rparr>)
              = extractDominantColor env (HTMLVideoElement videoElement)
                  (spread (noOptions\<lparr> fallbackColor := Value ''#4a5568'',
                                       enableContrastBoost := Value True,
                                       ignoreBlackBackground := Value True,
                                       minLuminance := Value 0.25,
                                       maxLuminance := Value 0.8,
                                       analyzePortraitVideo := Value True \<rparr>) options))
       \<and> extractColorFromImageUrl env (Some img) imageUrl (options\<lparr>useFallbackOnly := Value True\<rparr>)
           = Resolved (extractDominantColor env (HTMLImageElement img)
                  (spread (noOptions\<lparr> fallbackColor := Value ''#6b7280'',
                                       enableContrastBoost := Value True,
                                       ignoreBlackBackground := Value True \<rparr>) options))"
  using assms
  by (simp add: extractColorFromVideo_def extractColorFromImageUrl_def truthyFlag_def
      spread_useFallbackOnly extractDominantColor_ignores_useFallbackOnly orElse_falsy
      split: option.split)

theorem no_fallback_no_short_circuit_witness:
  "extractColorFromVideo blankEnv landscapeVideo (noOptions\<lparr>useFallbackOnly := Value True\<rparr>)
     = extractColorFromVideo blankEnv landscapeVideo (noOptions\<lparr>useFallbackOnly := Value False\<rparr>)
   \<and> extractColorFromImageUrl blankEnv (Some loadedImage) ''photo.jpg''
        (noOptions\<lparr>useFallbackOnly := Value True\<rparr>)
     = extractColorFromImageUrl blankEnv (Some loadedImage) ''photo.jpg''
        (noOptions\<lparr>useFallbackOnly := Value False\<rparr>)
   \<and> extractColorFromVideo blankEnv landscapeVideo (noOptions\<lparr>useFallbackOnly := Value True\<rparr>)
     = extractDominantColor blankEnv (HTMLVideoElement landscapeVideo)
         (spread (noOptions\<lparr> fallbackColor := Value ''#4a5568'',
                              enableContrastBoost := Value True,
                              ignoreBlackBackground := Value True,
                              minLuminance := Value 0.25,
                              maxLuminance := Value 0.8,
                              analyzePortraitVideo := Value True \<rparr>) noOptions)"
proof -
  have none: "\<not> truthyString (fallbackColor noOptions)"
    by (simp add: noOptions_def truthyString_def)
  have ready: "2 \<le> readyState landscapeVideo"
    by (simp add: landscapeVideo_def)
  show ?thesis
    using no_fallback_no_short_circuit
      [OF none, of blankEnv landscapeVideo "Some loadedImage" "''photo.jpg''" loadedImage] ready
    by blast
qed

subsection \<open>Small tables\<close>

lemma selectBestColor_empty: "selectBestColor [] minL maxL boost = None"
  by (simp add: selectBestColor_def findOptimalColor_def)

lemma selectBestColor_single:
  "0 < count c \<Longrightarrow> selectBestColor [(k, c)] minL maxL boost = Some c"
  by (simp add: selectBestColor_def findOptimalColor_def)

subsection \<open>Faults\<close>

lemma body_error_fallback:
  "extractionBody env el options = Inl e \<Longrightarrow>
   extractDominantColor env el options
     = createFallbackColor (orDefault (fallbackColor options) ''#4a5568'')"
  by (simp add: extractDominantColor_def Let_def)

lemma no_ctx_fallback:
  "\<not> has_ctx env \<Longrightarrow>
   extractDominantColor env el options
     = createFallbackColor (orDefault (fallbackColor options) ''#4a5568'')"
  by (simp add: extractDominantColor_def Let_def)

lemma getImageData_unreadable: "read_throws env \<Longrightarrow> getImageData env x y w h = Inl ReadFailed"
  by (simp add: getImageData_def)

lemma detectLayout_draw_throws: "draw_throws env \<Longrightarrow> \<exists>e. detectLayout env el a h = Inl e"
  by (cases el) (simp_all add: detectLayout_def)

lemma detectLayout_not_loaded:
  "\<not> complete img \<or> naturalHeight img = 0 \<Longrightarrow>
   detectLayout env (HTMLImageElement img) a h = Inl ImageNotLoaded"
  by (auto simp add: detectLayout_def)

lemma splitView_unreadable:
  "read_throws env \<Longrightarrow> extractFromSplitView env n options = Inl ReadFailed"
  by (simp add: extractFromSplitView_def getImageData_unreadable)

lemma body_fault:
  assumes "draw_throws env \<or> read_throws env
           \<or> (\<exists>img. el = HTMLImageElement img \<and> (\<not> complete img \<or> naturalHeight img = 0))"
  shows "\<exists>e. extractionBody env el options = Inl e"
proof -
  let ?a = "orDefault (analyzePortraitVideo options) True"
  let ?h = "orDefault (handleSplitView options) True"
  show ?thesis
  proof (cases "detectLayout env el ?a ?h")
    case (Inl e)
    then show ?thesis by (simp add: extractionBody_def)
  next
    case (Inr pr)
    with assms detectLayout_draw_throws [of env el ?a ?h] detectLayout_not_loaded [of _ env ?a ?h]
    have rt: "read_throws env" by auto
    obtain p s where pr: "pr = (p, s)" by (cases pr)
    show ?thesis using Inr rt
      by (simp add: extractionBody_def pr getImageData_unreadable splitView_unreadable Let_def
          split: sampling.split)
  qed
qed

lemma fault_fallback:
  assumes "\<not> has_ctx env \<or> draw_throws env \<or> read_throws env
           \<or> (\<exists>img. el = HTMLImageElement img \<and> (\<not> complete img \<or> naturalHeight img = 0))"
  shows "extractDominantColor env el options
           = createFallbackColor (orDefault (fallbackColor options) ''#4a5568'')"
proof (cases "has_ctx env")
  case False
  then show ?thesis by (rule no_ctx_fallback)
next
  case True
  with assms body_fault [of env el options]
  obtain e where "extractionBody env el options = Inl e"
    by blast
  then show ?thesis by (rule body_error_fallback)
qed

text \<open>
  Claim C4, as stated, fails: with no fallback colour configured and an unreadable pixel
  buffer, the video entry point and \<open>extractDominantColor\<close> return rgb (74, 85, 104), the
  default \<open>#4a5568\<close>, not the gray (107, 114, 128).
\<close>

theorem fault_without_fallback_counterexample:
  "fallbackColor noOptions = Absent \<and> read_throws unreadableEnv
   \<and> rgb (extractColorFromVideo unreadableEnv landscapeVideo noOptions) = (74, 85, 104)
   \<and> rgb (extractDominantColor unreadableEnv HTMLCanvasElement noOptions) = (74, 85, 104)"
proof -
  have rt: "read_throws unreadableEnv"
    by (simp add: unreadableEnv_def)
  have "extractColorFromVideo unreadableEnv landscapeVideo noOptions
          = createFallbackColor ''#4a5568''"
    using rt by (simp add: extractColorFromVideo_def truthyFlag_def noOptions_def
        landscapeVideo_def fault_fallback spread_def orDefault_def orElse_def)
  moreover have "extractDominantColor unreadableEnv HTMLCanvasElement noOptions
          = createFallbackColor ''#4a5568''"
    using rt by (simp add: fault_fallback noOptions_def orDefault_def)
  ultimately show ?thesis
    using rt by (simp add: fallback_4a5568 noOptions_def)
qed

text \<open>
  Claim C4, amended. No fallback colour is configured when the field \<open>fallbackColor\<close> is
  absent, is \<open>undefined\<close> or is the empty string. Then a fault (no canvas context, a
  throwing \<open>drawImage\<close>, an unreadable pixel buffer, an image that is not loaded or has
  height zero) makes \<open>extractDominantColor\<close> return the default \<open>#4a5568\<close>, rgb
  (74, 85, 104), and for the empty string the literal gray \<open>#6b7280\<close>, rgb (107, 114, 128),
  of luminance 0.4. The video entry point returns \<open>#4a5568\<close> for a video that is not ready,
  and what \<open>extractDominantColor\<close> returns for a fault on a ready video. The image entry
  point, when the fault follows a successful load, returns \<open>#6b7280\<close>, rgb (107, 114, 128),
  with the computed luminance if the field is absent, \<open>#4a5568\<close> if the field is
  \<open>undefined\<close>, and the literal gray if it is the empty string; its promise is rejected
  when the load itself fails.
\<close>

theorem fault_without_fallback:
  assumes "fallbackColor options = Absent \<or> fallbackColor options = Undefined
           \<or> fallbackColor options = Value []"
  shows "(\<not> has_ctx env \<or> draw_throws env \<or> read_throws env
            \<or> (\<exists>img. el = HTMLImageElement img \<and> (\<not> complete img \<or> naturalHeight img = 0)) \<longrightarrow>
            extractDominantColor env el options
              = (if fallbackColor options = Value []
                 then \<lparr> hex = ''#6b7280'', rgb = (107, 114, 128), luminance = 0.4 \<rparr>
                 else \<lparr> hex = ''#4a5568'', rgb = (74, 85, 104),
                        luminance = getLuminance 74 85 104 \<rparr>))
       \<and> (readyState videoElement < 2 \<longrightarrow>
            extractColorFromVideo env videoElement options
              = \<lparr> hex = ''#4a5568'', rgb = (74, 85, 104), luminance = getLuminance 74 85 104 \<rparr>)
       \<and> (2 \<le> readyState videoElement
            \<and> (\<not> has_ctx env \<or> draw_throws env \<or> read_throws env) \<longrightarrow>
            extractColorFromVideo env videoElement options
              = (if fallbackColor options = Value []
                 then \<lparr> hex = ''#6b7280'', rgb = (107, 114, 128), luminance = 0.4 \<rparr>
                 else \<lparr> hex = ''#4a5568'', rgb = (74, 85, 104),
                        luminance = getLuminance 74 85 104 \<rparr>))
       \<and> (\<not> has_ctx env \<or> draw_throws env \<or> read_throws env
            \<or> \<not> complete img \<or> naturalHeight img = 0 \<longrightarrow>
            extractColorFromImageUrl env (Some img) imageUrl options
              = Resolved
                  (case fallbackColor options of
                     Absent \<Rightarrow> \<lparr> hex = ''#6b7280'', rgb = (107, 114, 128),
                                 luminance = getLuminance 107 114 128 \<rparr>
                   | Undefined \<Rightarrow> \<lparr> hex = ''#4a5568'', rgb = (74, 85, 104),
                                    luminance = getLuminance 74 85 104 \<rparr>
                   | Value s \<Rightarrow> \<lparr> hex = ''#6b7280'', rgb = (107, 114, 128), luminance = 0.4 \<rparr>))
       \<and> extractColorFromImageUrl env None imageUrl options = Rejected"
proof (intro conjI impI)
  assume "\<not> has_ctx env \<or> draw_throws env \<or> read_throws env
          \<or> (\<exists>img. el = HTMLImageElement img \<and> (\<not> complete img \<or> naturalHeight img = 0))"
  then have "extractDominantColor env el options
      = createFallbackColor (orDefault (fallbackColor options) ''#4a5568'')"
    by (rule fault_fallback)
  then show "extractDominantColor env el options
      = (if fallbackColor options = Value []
         then \<lparr> hex = ''#6b7280'', rgb = (107, 114, 128), luminance = 0.4 \<rparr>
         else \<lparr> hex = ''#4a5568'', rgb = (74, 85, 104), luminance = getLuminance 74 85 104 \<rparr>)"
    using assms by (auto simp add: orDefault_def fallback_4a5568 fallback_empty)
next
  assume "readyState videoElement < 2"
  then show "extractColorFromVideo env videoElement options
      = \<lparr> hex = ''#4a5568'', rgb = (74, 85, 104), luminance = getLuminance 74 85 104 \<rparr>"
    using assms by (auto simp add: extractColorFromVideo_def truthyString_def orElse_def
        fallback_4a5568)
next
  assume f: "2 \<le> readyState videoElement \<and> (\<not> has_ctx env \<or> draw_throws env \<or> read_throws env)"
  then have "extractDominantColor env (HTMLVideoElement videoElement) opts
      = createFallbackColor (orDefault (fallbackColor opts) ''#4a5568'')" for opts
    by (intro fault_fallback) blast
  then show "extractColorFromVideo env videoElement options
      = (if fallbackColor options = Value []
         then \<lparr> hex = ''#6b7280'', rgb = (107, 114, 128), luminance = 0.4 \<rparr>
         else \<lparr> hex = ''#4a5568'', rgb = (74, 85, 104), luminance = getLuminance 74 85 104 \<rparr>)"
    using assms f by (auto simp add: extractColorFromVideo_def truthyString_def orElse_def
        spread_def noOptions_def orDefault_def fallback_4a5568 fallback_empty)
next
  assume "\<not> has_ctx env \<or> draw_throws env \<or> read_throws env
          \<or> \<not> complete img \<or> naturalHeight img = 0"
  then have "extractDominantColor env (HTMLImageElement img) opts
      = createFallbackColor (orDefault (fallbackColor opts) ''#4a5568'')" for opts
    by (intro fault_fallback) blast
  then show "extractColorFromImageUrl env (Some img) imageUrl options
      = Resolved
          (case fallbackColor options of
             Absent \<Rightarrow> \<lparr> hex = ''#6b7280'', rgb = (107, 114, 128),
                         luminance = getLuminance 107 114 128 \<rparr>
           | Undefined \<Rightarrow> \<lparr> hex = ''#4a5568'', rgb = (74, 85, 104),
                            luminance = getLuminance 74 85 104 \<rparr>
           | Value s \<Rightarrow> \<lparr> hex = ''#6b7280'', rgb = (107, 114, 128), luminance = 0.4 \<rparr>)"
    using assms by (auto simp add: extractColorFromImageUrl_def truthyString_def orElse_def
        spread_def noOptions_def orDefault_def fallback_6b7280 fallback_4a5568 fallback_empty)
next
  show "extractColorFromImageUrl env None imageUrl options = Rejected"
    using assms by (auto simp add: extractColorFromImageUrl_def truthyString_def)
qed

theorem fault_without_fallback_witness:
  "extractDominantColor unreadableEnv HTMLCanvasElement noOptions
       = \<lparr> hex = ''#4a5568'', rgb = (74, 85, 104), luminance = getLuminance 74 85 104 \<rparr>
   \<and> extractColorFromVideo unreadableEnv landscapeVideo noOptions
       = \<lparr> hex = ''#4a5568'', rgb = (74, 85, 104), luminance = getLuminance 74 85 104 \<rparr>
   \<and> extractColorFromImageUrl unreadableEnv (Some loadedImage) ''photo.jpg'' noOptions
       = Resolved \<lparr> hex = ''#6b7280'', rgb = (107, 114, 128), luminance = getLuminance 107 114 128 \<rparr>
   \<and> extractColorFromImageUrl unreadableEnv (Some loadedImage) ''photo.jpg''
         (noOptions\<lparr>fallbackColor := Undefined\<rparr>)
       = Resolved \<lparr> hex = ''#4a5568'', rgb = (74, 85, 104), luminance = getLuminance 74 85 104 \<rparr>
   \<and> extractColorFromImageUrl unreadableEnv (Some loadedImage) ''photo.jpg''
         (noOptions\<lparr>fallbackColor := Value []\<rparr>)
       = Resolved \<lparr> hex = ''#6b7280'', rgb = (107, 114, 128), luminance = 0.4 \<rparr>
   \<and> extractColorFromImageUrl unreadableEnv None ''photo.jpg'' noOptions = Rejected"
proof -
  have rt: "read_throws unreadableEnv"
    by (simp add: unreadableEnv_def)
  have ready: "2 \<le> readyState landscapeVideo"
    by (simp add: landscapeVideo_def)
  show ?thesis
    using fault_without_fallback
      [of noOptions unreadableEnv HTMLCanvasElement landscapeVideo loadedImage "''photo.jpg''"]
      fault_without_fallback
      [of "noOptions\<lparr>fallbackColor := Undefined\<rparr>" unreadableEnv HTMLCanvasElement
        landscapeVideo loadedImage "''photo.jpg''"]
      fault_without_fallback
      [of "noOptions\<lparr>fallbackColor := Value []\<rparr>" unreadableEnv HTMLCanvasElement
        landscapeVideo loadedImage "''photo.jpg''"]
      rt ready
    by (simp add: noOptions_def)
qed

subsection \<open>The sampled region of a portrait video\<close>

lemma upt_2: "[0..<2] = [0, 1]"
  by (simp add: upt_rec)

lemma upt_3: "[0..<3] = [0, 1, 2]"
  by (simp add: upt_rec)

lemma upt_4: "[0..<4] = [0, 1, 2, 3]"
  by (simp add: upt_rec)

lemma upt_5: "[0..<5] = [0, 1, 2, 3, 4]"
  by (simp add: upt_rec)

lemma quantize_255: "quantize 255 = 240"
  by (simp add: quantize_def)

lemma toHex_240: "toHex 240 = ''f0''"
  by (simp add: toHex_def toString16_def hexDigitChar_def)

lemma lastRow_lower_third:
  "getImageData lastRowEnv 0 3 5 2
     = Inr [(0, 0, 0, 0), (0, 0, 0, 0), (0, 0, 0, 0), (0, 0, 0, 0), (0, 0, 0, 0),
            (255, 255, 255, 255), (255, 255, 255, 255), (255, 255, 255, 255),
            (255, 255, 255, 255), (255, 255, 255, 255)]"
  by (simp add: getImageData_def lastRowEnv_def upt_5 upt_2)

lemma lastRow_center:
  "getImageData lastRowEnv 1 0 3 4
     = Inr [(0, 0, 0, 0), (0, 0, 0, 0), (0, 0, 0, 0), (0, 0, 0, 0), (0, 0, 0, 0), (0, 0, 0, 0),
            (0, 0, 0, 0), (0, 0, 0, 0), (0, 0, 0, 0), (0, 0, 0, 0), (0, 0, 0, 0), (0, 0, 0, 0)]"
  by (simp add: getImageData_def lastRowEnv_def upt_3 upt_4)

lemma lastRow_lower_table:
  "sampleLoop False
     [(0, 0, 0, 0), (0, 0, 0, 0), (0, 0, 0, 0), (0, 0, 0, 0), (0, 0, 0, 0),
      (255, 255, 255, 255), (255, 255, 255, 255), (255, 255, 255, 255),
      (255, 255, 255, 255), (255, 255, 255, 255)] []
     = [((240, 240, 240), \<lparr> count = 1, c_rgb = (240, 240, 240),
           c_luminance = getLuminance 240 240 240, saturation = 0 \<rparr>)]"
  by (simp add: recordSample_def quantize_255 mapHas_def calculateSaturation_def)

lemma lastRow_center_table:
  "sampleLoop ign
     [(0, 0, 0, 0), (0, 0, 0, 0), (0, 0, 0, 0), (0, 0, 0, 0), (0, 0, 0, 0), (0, 0, 0, 0),
      (0, 0, 0, 0), (0, 0, 0, 0), (0, 0, 0, 0), (0, 0, 0, 0), (0, 0, 0, 0), (0, 0, 0, 0)] [] = []"
  by (simp add: recordSample_def)

text \<open>
  Claim C1, as stated, fails: for a portrait video with \<open>analyzePortraitVideo\<close> in effect
  and \<open>ignoreBlackBackground\<close> switched off, the extractor samples the lower third. On a
  5 by 5 canvas that is transparent except for a white last row, the result is the white
  of row 4, while the centred region (offset (1, 0), 3 by 4) contains no opaque pixel.
\<close>

theorem portrait_center_counterexample:
  "videoHeight portraitVideo \<noteq> 0
   \<and> real (videoWidth portraitVideo) / real (videoHeight portraitVideo) < 1
   \<and> orDefault (analyzePortraitVideo keepBlackOptions) True
   \<and> extractDominantColor lastRowEnv (HTMLVideoElement portraitVideo) keepBlackOptions
       = \<lparr> hex = ''#f0f0f0'', rgb = (240, 240, 240), luminance = getLuminance 240 240 240 \<rparr>
   \<and> chooseSampling True False 5 True True True = Region 1 0 3 4
   \<and> (\<exists>imageData. getImageData lastRowEnv 1 0 3 4 = Inr imageData
         \<and> set imageData = {(0, 0, 0, 0)})"
proof (intro conjI)
  show "videoHeight portraitVideo \<noteq> 0"
    by (simp add: portraitVideo_def)
  show "real (videoWidth portraitVideo) / real (videoHeight portraitVideo) < 1"
    by (simp add: portraitVideo_def)
  show "orDefault (analyzePortraitVideo keepBlackOptions) True"
    by (simp add: keepBlackOptions_def noOptions_def orDefault_def)
  have ctx: "has_ctx lastRowEnv" "\<not> draw_throws lastRowEnv"
    by (simp_all add: lastRowEnv_def)
  show "extractDominantColor lastRowEnv (HTMLVideoElement portraitVideo) keepBlackOptions
       = \<lparr> hex = ''#f0f0f0'', rgb = (240, 240, 240), luminance = getLuminance 240 240 240 \<rparr>"
    by (simp add: extractDominantColor_def extractionBody_def ctx keepBlackOptions_def
        noOptions_def orDefault_def detectLayout_def chooseSampling_def portraitVideo_def
        lastRow_lower_third lastRow_lower_table selectBestColor_single finishColor_def
        rgbToHex_def toHex_240 del: sampleLoop.simps)
  show "chooseSampling True False 5 True True True = Region 1 0 3 4"
    by (simp add: chooseSampling_def)
  show "\<exists>imageData. getImageData lastRowEnv 1 0 3 4 = Inr imageData
         \<and> set imageData = {(0, 0, 0, 0)}"
    using lastRow_center by simp
qed

text \<open>
  Claim C1, amended. For a video of aspect ratio below 1, with \<open>analyzePortraitVideo\<close> and
  \<open>ignoreBlackBackground\<close> both in effect, the result of \<open>extractDominantColor\<close> is the
  analysis of the centred rectangle of width \<open>\<lfloor>0.6 n\<rfloor>\<close> and height \<open>\<lfloor>0.8 n\<rfloor>\<close> of the
  \<open>n\<close> by \<open>n\<close> canvas (or the fallback when the canvas cannot be used), whatever
  \<open>handleSplitView\<close>, \<open>sampleLowerThird\<close> and the other options are.
\<close>

theorem portrait_center_region:
  assumes "videoHeight v \<noteq> 0"
    and "real (videoWidth v) / real (videoHeight v) < 1"
    and "orDefault (analyzePortraitVideo options) True"
    and "orDefault (ignoreBlackBackground options) True"
  shows "extractDominantColor env (HTMLVideoElement v) options =
     (let n = orDefault (sampleSize options) 50;
          fallback = orDefault (fallbackColor options) ''#4a5568'';
          boost = orDefault (enableContrastBoost options) True;
          centerWidth = nat \<lfloor>real n * 0.6\<rfloor>;
          centerHeight = nat \<lfloor>real n * 0.8\<rfloor>;
          offsetX = nat \<lfloor>real (n - centerWidth) / 2\<rfloor>;
          offsetY = nat \<lfloor>real (n - centerHeight) / 2\<rfloor>
      in if \<not> has_ctx env \<or> draw_throws env then createFallbackColor fallback
         else case getImageData env offsetX offsetY centerWidth centerHeight of
                Inl e \<Rightarrow> createFallbackColor fallback
              | Inr imageData \<Rightarrow>
                  finishColor
                    (selectBestColor (sampleLoop True imageData [])
                       (orDefault (minLuminance options) 0.2)
                       (orDefault (maxLuminance options) 0.85) boost)
                    boost fallback)"
proof -
  let ?n = "orDefault (sampleSize options) 50"
  let ?fallback = "orDefault (fallbackColor options) ''#4a5568''"
  show ?thesis
  proof (cases "\<not> has_ctx env \<or> draw_throws env")
    case True
    then have "extractDominantColor env (HTMLVideoElement v) options = createFallbackColor ?fallback"
      by (intro fault_fallback) blast
    with True show ?thesis
      by (simp add: Let_def)
  next
    case False
    then have layout: "detectLayout env (HTMLVideoElement v)
        (orDefault (analyzePortraitVideo options) True) (orDefault (handleSplitView options) True)
        = Inr (True, False)"
      using assms by (simp add: detectLayout_def)
    have sampling: "chooseSampling True False ?n True hs lt
        = Region (nat \<lfloor>real (?n - nat \<lfloor>real ?n * 0.6\<rfloor>) / 2\<rfloor>)
                 (nat \<lfloor>real (?n - nat \<lfloor>real ?n * 0.8\<rfloor>) / 2\<rfloor>)
                 (nat \<lfloor>real ?n * 0.6\<rfloor>) (nat \<lfloor>real ?n * 0.8\<rfloor>)" for hs lt
      by (simp only: chooseSampling_def Let_def simp_thms if_True)
    have body: "extractionBody env (HTMLVideoElement v) options =
        (case getImageData env (nat \<lfloor>real (?n - nat \<lfloor>real ?n * 0.6\<rfloor>) / 2\<rfloor>)
                 (nat \<lfloor>real (?n - nat \<lfloor>real ?n * 0.8\<rfloor>) / 2\<rfloor>)
                 (nat \<lfloor>real ?n * 0.6\<rfloor>) (nat \<lfloor>real ?n * 0.8\<rfloor>) of
           Inl e \<Rightarrow> Inl e
         | Inr imageData \<Rightarrow>
             Inr (finishColor
                    (selectBestColor (sampleLoop True imageData [])
                       (orDefault (minLuminance options) 0.2)
                       (orDefault (maxLuminance options) 0.85)
                       (orDefault (enableContrastBoost options) True))
                    (orDefault (enableContrastBoost options) True) ?fallback))"
      using assms(4)
      by (simp only: extractionBody_def layout Let_def sum.case prod.case sampling
          sampling.case simp_thms)
    show ?thesis
    proof (cases "getImageData env (nat \<lfloor>real (?n - nat \<lfloor>real ?n * 0.6\<rfloor>) / 2\<rfloor>)
                 (nat \<lfloor>real (?n - nat \<lfloor>real ?n * 0.8\<rfloor>) / 2\<rfloor>)
                 (nat \<lfloor>real ?n * 0.6\<rfloor>) (nat \<lfloor>real ?n * 0.8\<rfloor>)")
      case (Inl e)
      with False body show ?thesis
        by (simp add: extractDominantColor_def Let_def)
    next
      case (Inr imageData)
      with False body show ?thesis
        by (simp add: extractDominantColor_def Let_def)
    qed
  qed
qed

theorem portrait_center_region_witness:
  "extractDominantColor lastRowEnv (HTMLVideoElement portraitVideo)
     (noOptions\<lparr> sampleSize := Value 5, sampleLowerThird := Value True \<rparr>)
     = createFallbackColor ''#4a5568''"
proof -
  let ?options = "noOptions\<lparr> sampleSize := Value 5, sampleLowerThird := Value True \<rparr>"
  have h: "videoHeight portraitVideo \<noteq> 0"
    by (simp add: portraitVideo_def)
  have ratio: "real (videoWidth portraitVideo) / real (videoHeight portraitVideo) < 1"
    by (simp add: portraitVideo_def)
  have portrait: "orDefault (analyzePortraitVideo ?options) True"
    by (simp add: noOptions_def orDefault_def)
  have ign: "orDefault (ignoreBlackBackground ?options) True"
    by (simp add: noOptions_def orDefault_def)
  have ctx: "has_ctx lastRowEnv" "\<not> draw_throws lastRowEnv"
    by (simp_all add: lastRowEnv_def)
  have region: "getImageData lastRowEnv (Suc 0) 0 3 4
     = Inr [(0, 0, 0, 0), (0, 0, 0, 0), (0, 0, 0, 0), (0, 0, 0, 0), (0, 0, 0, 0), (0, 0, 0, 0),
            (0, 0, 0, 0), (0, 0, 0, 0), (0, 0, 0, 0), (0, 0, 0, 0), (0, 0, 0, 0), (0, 0, 0, 0)]"
    using lastRow_center by simp
  show ?thesis
    using portrait_center_region [OF h ratio portrait ign, of lastRowEnv]
    by (simp add: ctx noOptions_def orDefault_def region lastRow_center_table
        selectBestColor_empty finishColor_def del: sampleLoop.simps)
qed

subsection \<open>Near-black buffers\<close>

lemma recordSample_nearBlack: "nearBlack px \<Longrightarrow> recordSample True px m = m"
  by (cases px) (simp add: nearBlack_def recordSample_def)

lemma sampleLoop_nearBlack:
  "\<forall>px \<in> set imageData. nearBlack px \<Longrightarrow> sampleLoop True imageData m = m"
proof (induction True imageData m rule: sampleLoop.induct)
  case (1 m)
  show ?case by simp
next
  case (2 px rest m)
  have "set (drop 3 rest) \<subseteq> set rest"
    by (rule set_drop_subset)
  with 2 show ?case
    by (auto simp add: recordSample_nearBlack)
qed

lemma getImageData_all:
  "\<forall>x y. P (pixel_at env x y) \<Longrightarrow> getImageData env sx sy sw sh = Inr imageData \<Longrightarrow>
   \<forall>px \<in> set imageData. P px"
  by (auto simp add: getImageData_def split: if_splits)

lemma getImageData_error: "getImageData env sx sy sw sh = Inl e \<Longrightarrow> e = ReadFailed"
  by (simp add: getImageData_def split: if_splits)

lemma analyze_nearBlack:
  assumes "\<forall>x y. nearBlack (pixel_at env x y)"
    and "getImageData env sx sy sw sh = Inr imageData"
  shows "sampleLoop True imageData [] = []"
  using getImageData_all [of nearBlack, OF assms] by (rule sampleLoop_nearBlack)

lemma splitView_nearBlack:
  assumes "\<forall>x y. nearBlack (pixel_at env x y)" and "orDefault (ignoreBlackBackground options) True"
  shows "(\<exists>e. extractFromSplitView env n options = Inl e) \<or> extractFromSplitView env n options
           = Inr (createFallbackColor (orDefault (fallbackColor options) ''#4a5568''))"
proof -
  let ?half = "nat \<lfloor>real n / 2\<rfloor>"
  let ?low = "nat \<lfloor>real n * 0.67\<rfloor>"
  show ?thesis
  proof (cases "getImageData env 0 ?low ?half (n - ?low)")
    case (Inl e)
    then show ?thesis by (simp add: extractFromSplitView_def)
  next
    case left: (Inr leftData)
    show ?thesis
    proof (cases "getImageData env ?half ?low ?half (n - ?low)")
      case (Inl e)
      with left show ?thesis by (simp add: extractFromSplitView_def)
    next
      case right: (Inr rightData)
      from analyze_nearBlack [OF assms(1) left] analyze_nearBlack [OF assms(1) right] assms(2)
      show ?thesis
        using left right
        by (simp add: extractFromSplitView_def analyzeImageData_def findOptimalColor_def)
    qed
  qed
qed

lemma body_nearBlack:
  assumes "\<forall>x y. nearBlack (pixel_at env x y)" and "orDefault (ignoreBlackBackground options) True"
  shows "(\<exists>e. extractionBody env el options = Inl e) \<or> extractionBody env el options
           = Inr (createFallbackColor (orDefault (fallbackColor options) ''#4a5568''))"
proof (cases "detectLayout env el (orDefault (analyzePortraitVideo options) True)
           (orDefault (handleSplitView options) True)")
  case (Inl e)
  then show ?thesis by (simp add: extractionBody_def)
next
  case (Inr pr)
  obtain p s where pr: "pr = (p, s)" by (cases pr)
  show ?thesis
  proof (cases "chooseSampling p s (orDefault (sampleSize options) 50)
         (orDefault (ignoreBlackBackground options) True) (orDefault (handleSplitView options) True)
         (orDefault (sampleLowerThird options) True)")
    case (Region ox oy w h)
    show ?thesis
    proof (cases "getImageData env ox oy w h")
      case (Inl e)
      with Inr pr Region show ?thesis
        by (simp add: extractionBody_def Let_def)
    next
      case d: (Inr imageData)
      from analyze_nearBlack [OF assms(1) d] assms(2) Inr pr Region d show ?thesis
        by (simp add: extractionBody_def Let_def selectBestColor_empty finishColor_def)
    qed
  next
    case SplitView
    with Inr pr splitView_nearBlack [OF assms, of "orDefault (sampleSize options) 50"]
    show ?thesis
      by (simp add: extractionBody_def Let_def)
  qed
qed

lemma extract_nearBlack:
  assumes "\<forall>x y. nearBlack (pixel_at env x y)"
    and "orDefault (ignoreBlackBackground options) True"
  shows "extractDominantColor env el options
           = createFallbackColor (orDefault (fallbackColor options) ''#4a5568'')"
  using body_nearBlack [OF assms, of el]
  by (auto simp add: extractDominantColor_def Let_def)

text \<open>
  Claim C9. When every sample of the canvas has its three channels below 30 and
  \<open>ignoreBlackBackground\<close> is in effect, every sample is discarded, so the frequency table
  of any such buffer is empty, the three selection steps find nothing in the empty table,
  and \<open>extractDominantColor\<close> returns the colour made from the fallback in effect.
\<close>

theorem near_black_gives_fallback:
  assumes "\<forall>x y. nearBlack (pixel_at env x y)"
    and "orDefault (ignoreBlackBackground options) True"
  shows "(\<forall>imageData. (\<forall>px \<in> set imageData. nearBlack px) \<longrightarrow> analyzeImageData imageData options = [])
       \<and> selectBestColor [] minL maxL boost = None
       \<and> extractDominantColor env el options
           = createFallbackColor (orDefault (fallbackColor options) ''#4a5568'')"
proof (intro conjI allI impI)
  fix imageData :: "pixel list"
  assume "\<forall>px \<in> set imageData. nearBlack px"
  then show "analyzeImageData imageData options = []"
    using assms(2) by (simp add: analyzeImageData_def sampleLoop_nearBlack)
next
  show "selectBestColor [] minL maxL boost = None"
    by (rule selectBestColor_empty)
next
  from body_nearBlack [OF assms, of el]
  show "extractDominantColor env el options
           = createFallbackColor (orDefault (fallbackColor options) ''#4a5568'')"
    by (auto simp add: extractDominantColor_def Let_def)
qed


theorem near_black_gives_fallback_witness:
  "analyzeImageData [(10, 20, 29, 255), (0, 0, 0, 255)] (noOptions\<lparr>fallbackColor := Value ''#336699''\<rparr>) = []
   \<and> extractDominantColor blackEnv HTMLCanvasElement (noOptions\<lparr>fallbackColor := Value ''#336699''\<rparr>)
       = \<lparr> hex = ''#336699'', rgb = (51, 102, 153), luminance = getLuminance 51 102 153 \<rparr>"
proof -
  have black: "\<forall>x y. nearBlack (pixel_at blackEnv x y)"
    by (simp add: blackEnv_def nearBlack_def)
  have ign: "orDefault (ignoreBlackBackground (noOptions\<lparr>fallbackColor := Value ''#336699''\<rparr>)) True"
    by (simp add: noOptions_def orDefault_def)
  have px: "\<forall>px \<in> set [(10, 20, 29, 255), (0, 0, 0, 255)]. nearBlack px"
    by (simp add: nearBlack_def)
  from near_black_gives_fallback [OF black ign, where el = HTMLCanvasElement] px
  show ?thesis
    by (simp add: orDefault_def fallback_336699)
qed

subsection \<open>Bounds on the luminance\<close>

lemma powr_12_5_pow5:
  assumes "0 \<le> (x::real)"
  shows "(x powr (12/5)) ^ 5 = x ^ 12"
proof -
  have "(x powr (12/5)) ^ 5 = (x powr (12/5)) powr 5"
    by (simp add: powr_numeral)
  also have "\<dots> = x powr 12"
    by (simp add: powr_powr)
  also have "\<dots> = x ^ 12"
    using assms by (simp add: powr_numeral)
  finally show ?thesis .
qed

lemma powr_12_5_less:
  assumes "0 \<le> (x::real)" and "0 \<le> q" and "x ^ 12 < q ^ 5"
  shows "x powr (12/5) < q"
proof -
  have "(x powr (12/5)) ^ 5 < q ^ 5"
    using assms by (simp add: powr_12_5_pow5)
  then show ?thesis
    using assms(2) by (rule power_less_imp_less_base)
qed

lemma powr_12_5_ge:
  assumes "0 \<le> (x::real)" and "q ^ 5 \<le> x ^ 12"
  shows "q \<le> x powr (12/5)"
proof -
  have "q ^ 5 \<le> (x powr (12/5)) ^ 5"
    using assms by (simp add: powr_12_5_pow5)
  then show ?thesis
    by (rule power_le_imp_le_base [of q 4, simplified]) simp
qed

lemma linearize_upper:
  fixes c :: int
  assumes "11 \<le> c" and "0 \<le> q"
    and "((real_of_int c / 255 + 0.055) / 1.055) ^ 12 < q ^ 5"
  shows "linearize c < q"
proof -
  have "\<not> real_of_int c / 255 \<le> 0.03928"
    using assms(1) by simp
  moreover have "0 \<le> (real_of_int c / 255 + 0.055) / 1.055"
    using assms(1) by simp
  ultimately show ?thesis
    using powr_12_5_less [OF _ assms(2) assms(3)] by (simp add: linearize_def Let_def)
qed

lemma linearize_lower:
  fixes c :: int
  assumes "11 \<le> c"
    and "q ^ 5 \<le> ((real_of_int c / 255 + 0.055) / 1.055) ^ 12"
  shows "q \<le> linearize c"
proof -
  have "\<not> real_of_int c / 255 \<le> 0.03928"
    using assms(1) by simp
  moreover have "0 \<le> (real_of_int c / 255 + 0.055) / 1.055"
    using assms(1) by simp
  ultimately show ?thesis
    using powr_12_5_ge [OF _ assms(2)] by (simp add: linearize_def Let_def)
qed

lemma linearize_0: "linearize 0 = 0"
  by (simp add: linearize_def)

lemma linearize_nonneg: "0 \<le> c \<Longrightarrow> 0 \<le> linearize c"
  by (simp add: linearize_def Let_def)

lemma linearize_le_1: 
  assumes "0 \<le> c" and "c \<le> 255" shows "linearize c \<le> 1"
proof -
  let ?x = "real_of_int c / 255"
  have x: "0 \<le> ?x" "?x \<le> 1" using assms by simp_all
  show ?thesis
  proof (cases "?x \<le> 0.03928")
    case True
    then show ?thesis using x by (simp add: linearize_def Let_def)
  next
    case False
    have "((?x + 0.055) / 1.055) powr 2.4 \<le> 1"
      using x by (intro powr_le1) simp_all
    with False show ?thesis by (simp add: linearize_def Let_def)
  qed
qed

lemma getLuminance_range:
  assumes "0 \<le> r" "r \<le> 255" "0 \<le> g" "g \<le> 255" "0 \<le> b" "b \<le> 255"
  shows "0 \<le> getLuminance r g b \<and> getLuminance r g b \<le> 1"
  using linearize_nonneg [of r] linearize_nonneg [of g] linearize_nonneg [of b]
    linearize_le_1 [of r] linearize_le_1 [of g] linearize_le_1 [of b] assms
  by (simp add: getLuminance_def)

lemma luminance_gray_below: "getLuminance 107 114 128 < 0.4"
proof -
  have "linearize 107 < 0.4" "linearize 114 < 0.4" "linearize 128 < 0.4"
    by (rule linearize_upper; simp add: power_divide divide_simps)+
  then show ?thesis by (simp add: getLuminance_def)
qed

lemma luminance_green: "0.2 \<le> getLuminance 0 168 0 \<and> getLuminance 0 168 0 < 0.3"
proof -
  have "linearize 168 < 0.41" 
    by (rule linearize_upper; simp add: power_divide divide_simps)
  moreover have "0.28 \<le> linearize 168"
    by (rule linearize_lower; simp add: power_divide divide_simps)
  ultimately show ?thesis by (simp add: getLuminance_def linearize_0)
qed

lemma luminance_legacy_below: "getLuminance 74 85 104 < 0.3"
proof -
  have "linearize 74 < 0.3" "linearize 85 < 0.3" "linearize 104 < 0.3"
    by (rule linearize_upper; simp add: power_divide divide_simps)+
  then show ?thesis by (simp add: getLuminance_def)
qed

subsection \<open>The frequency table and the selection\<close>

lemma quantize_eq: "quantize c = uint c div 24 * 24"
  by (simp add: quantize_def floor_divide_of_int_eq [of "uint c" 24, simplified])

lemma quantize_range: "0 \<le> quantize c \<and> quantize c \<le> 240"
proof -
  have "uint c < 256" using uint_bounded [of c] by simp
  moreover have "0 \<le> uint c" by simp
  ultimately show ?thesis unfolding quantize_eq by presburger
qed

lemma incrementCount_valid:
  "list_all validEntry m \<Longrightarrow> list_all validEntry (incrementCount m key)"
  by (induction m) (auto simp add: incrementCount_def validEntry_def split: if_splits)

lemma recordSample_valid:
  assumes "list_all validEntry m"
  shows "list_all validEntry (recordSample ign px m)"
proof -
  obtain r g b alpha where px: "px = (r, g, b, alpha)"
    by (cases px)
  have "validEntry ((quantize r, quantize g, quantize b),
      \<lparr> count = 1, c_rgb = (quantize r, quantize g, quantize b),
        c_luminance = getLuminance (quantize r) (quantize g) (quantize b),
        saturation = calculateSaturation (quantize r) (quantize g) (quantize b) \<rparr>)"
    using quantize_range [of r] quantize_range [of g] quantize_range [of b]
    by (simp add: validEntry_def)
  with assms show ?thesis
    by (simp add: px recordSample_def Let_def incrementCount_valid)
qed

lemma sampleLoop_valid:
  "list_all validEntry m \<Longrightarrow> list_all validEntry (sampleLoop ign imageData m)"
  by (induction ign imageData m rule: sampleLoop.induct) (simp_all add: recordSample_valid)

lemma analyze_valid: "list_all validEntry (sampleLoop ign imageData [])"
  by (rule sampleLoop_valid) simp

lemma findOptimalLoop_spec:
  "(if \<exists>c \<in> set (candidates m). inBounds lo hi c \<and> bs < totalScore c
    then \<exists>c \<in> set (candidates m). findOptimalLoop m lo hi best bs = Some c
           \<and> inBounds lo hi c \<and> bs < totalScore c
           \<and> (\<forall>c' \<in> set (candidates m). inBounds lo hi c' \<longrightarrow> totalScore c' \<le> totalScore c)
    else findOptimalLoop m lo hi best bs = best)"
proof (induction m arbitrary: best bs)
  case Nil
  show ?case by (simp add: candidates_def)
next
  case (Cons e m)
  obtain key c where e: "e = (key, c)" by (cases e)
  show ?case
  proof (cases "inBounds lo hi c \<and> bs < totalScore c")
    case False
    then have step: "findOptimalLoop (e # m) lo hi best bs = findOptimalLoop m lo hi best bs"
      by (auto simp add: e inBounds_def)
    from False have ex: "(\<exists>c' \<in> set (candidates (e # m)). inBounds lo hi c' \<and> bs < totalScore c')
        \<longleftrightarrow> (\<exists>c' \<in> set (candidates m). inBounds lo hi c' \<and> bs < totalScore c')"
      by (auto simp add: e candidates_def)
    show ?thesis
    proof (cases "\<exists>c' \<in> set (candidates m). inBounds lo hi c' \<and> bs < totalScore c'")
      case True
      with Cons.IH [of bs best] obtain w where w: "w \<in> set (candidates m)"
        "findOptimalLoop m lo hi best bs = Some w" "inBounds lo hi w" "bs < totalScore w"
        "\<forall>c' \<in> set (candidates m). inBounds lo hi c' \<longrightarrow> totalScore c' \<le> totalScore w"
        by auto
      from False w(4) have "inBounds lo hi c \<longrightarrow> totalScore c \<le> totalScore w"
        by auto
      with w True show ?thesis
        unfolding ex step by (auto simp add: e candidates_def)
    next
      case none: False
      with Cons.IH [of bs best] show ?thesis
        unfolding ex step by auto
    qed
  next
    case True
    then have step: "findOptimalLoop (e # m) lo hi best bs
        = findOptimalLoop m lo hi (Some c) (totalScore c)"
      by (auto simp add: e inBounds_def)
    from True have ex: "\<exists>c' \<in> set (candidates (e # m)). inBounds lo hi c' \<and> bs < totalScore c'"
      by (auto simp add: e candidates_def)
    show ?thesis
    proof (cases "\<exists>c' \<in> set (candidates m). inBounds lo hi c' \<and> totalScore c < totalScore c'")
      case better: True
      with Cons.IH [of "totalScore c" "Some c"] obtain w where w: "w \<in> set (candidates m)"
        "findOptimalLoop m lo hi (Some c) (totalScore c) = Some w" "inBounds lo hi w"
        "totalScore c < totalScore w"
        "\<forall>c' \<in> set (candidates m). inBounds lo hi c' \<longrightarrow> totalScore c' \<le> totalScore w"
        by auto
      with True show ?thesis
        using ex unfolding step by (auto simp add: e candidates_def)
    next
      case none: False
      with Cons.IH [of "totalScore c" "Some c"]
      have "findOptimalLoop m lo hi (Some c) (totalScore c) = Some c"
        by simp
      moreover from none have "\<forall>c' \<in> set (candidates m). inBounds lo hi c' \<longrightarrow> totalScore c' \<le> totalScore c"
        by (auto simp add: not_less)
      ultimately show ?thesis
        using True ex unfolding step by (auto simp add: e candidates_def)
    qed
  qed
qed

lemma mostFrequentLoop_spec:
  "(if \<exists>c \<in> set (candidates m). mc < count c
    then \<exists>c \<in> set (candidates m). mostFrequentLoop m best mc = Some c \<and> mc < count c
           \<and> (\<forall>c' \<in> set (candidates m). count c' \<le> count c)
    else mostFrequentLoop m best mc = best)"
proof (induction m arbitrary: best mc)
  case Nil
  show ?case by (simp add: candidates_def)
next
  case (Cons e m)
  obtain key c where e: "e = (key, c)" by (cases e)
  show ?case
  proof (cases "mc < count c")
    case False
    then have step: "mostFrequentLoop (e # m) best mc = mostFrequentLoop m best mc"
      by (simp add: e)
    from False have ex: "(\<exists>c' \<in> set (candidates (e # m)). mc < count c')
        \<longleftrightarrow> (\<exists>c' \<in> set (candidates m). mc < count c')"
      by (auto simp add: e candidates_def)
    show ?thesis
    proof (cases "\<exists>c' \<in> set (candidates m). mc < count c'")
      case True
      with Cons.IH [of mc best] obtain w where w: "w \<in> set (candidates m)"
        "mostFrequentLoop m best mc = Some w" "mc < count w"
        "\<forall>c' \<in> set (candidates m). count c' \<le> count w"
        by auto
      from False w(3) have "count c \<le> count w"
        by auto
      with w True show ?thesis
        unfolding ex step by (auto simp add: e candidates_def)
    next
      case none: False
      with Cons.IH [of mc best] show ?thesis
        unfolding ex step by auto
    qed
  next
    case True
    then have step: "mostFrequentLoop (e # m) best mc = mostFrequentLoop m (Some c) (count c)"
      by (simp add: e)
    from True have ex: "\<exists>c' \<in> set (candidates (e # m)). mc < count c'"
      by (auto simp add: e candidates_def)
    show ?thesis
    proof (cases "\<exists>c' \<in> set (candidates m). count c < count c'")
      case better: True
      with Cons.IH [of "count c" "Some c"] obtain w where w: "w \<in> set (candidates m)"
        "mostFrequentLoop m (Some c) (count c) = Some w" "count c < count w"
        "\<forall>c' \<in> set (candidates m). count c' \<le> count w"
        by auto
      with True show ?thesis
        using ex unfolding step by (auto simp add: e candidates_def)
    next
      case none: False
      with Cons.IH [of "count c" "Some c"]
      have "mostFrequentLoop m (Some c) (count c) = Some c"
        by simp
      moreover from none have "\<forall>c' \<in> set (candidates m). count c' \<le> count c"
        by (auto simp add: not_less)
      ultimately show ?thesis
        using True ex unfolding step by (auto simp add: e candidates_def)
    qed
  qed
qed


lemma calculateSaturation_nonneg:
  assumes "0 \<le> r" "0 \<le> g" "0 \<le> b"
  shows "0 \<le> calculateSaturation r g b"
proof -
  have "min r (min g b) \<le> max r (max g b)" by simp
  then have "real_of_int (min r (min g b)) \<le> real_of_int (max r (max g b))"
    by (simp only: of_int_le_iff)
  moreover have "0 \<le> real_of_int (max r (max g b))"
    using assms by simp
  ultimately show ?thesis
    by (simp add: calculateSaturation_def Let_def del: of_int_max of_int_min)
qed

lemma totalScore_positive:
  assumes "validEntry (key, c)"
  shows "0 < totalScore c"
proof -
  obtain r g b where key: "key = (r, g, b)" by (cases key)
  from assms have rng: "0 \<le> r" "r \<le> 240" "0 \<le> g" "g \<le> 240" "0 \<le> b" "b \<le> 240"
    and cnt: "0 < count c"
    and lum: "c_luminance c = getLuminance r g b"
    and sat: "saturation c = calculateSaturation r g b"
    by (simp_all add: validEntry_def key)
  from rng have l: "0 \<le> c_luminance c" "c_luminance c \<le> 1"
    using getLuminance_range [of r g b] by (simp_all add: lum)
  from rng have s: "0 \<le> saturation c"
    using calculateSaturation_nonneg [of r g b] by (simp add: sat)
  have f: "0 < min (real (count c) / 10) 1"
    using cnt by simp
  have ls: "0 \<le> 1 - \<bar>c_luminance c - 0.5\<bar>"
    using l by simp
  have ss: "0 \<le> min (saturation c * 1.5) 1"
    using s by simp
  have "0 < min (real (count c) / 10) 1 * 0.4 + min (saturation c * 1.5) 1 * 0.3
            + (1 - \<bar>c_luminance c - 0.5\<bar>) * 0.3"
    using f ls ss by (intro add_pos_nonneg) simp_all
  then show ?thesis
    by (simp add: totalScore_def Let_def)
qed

lemma findOptimalColor_spec:
  assumes "list_all validEntry m"
  shows "(if \<exists>c \<in> set (candidates m). inBounds lo hi c
    then \<exists>c. findOptimalColor m lo hi boost = Some c \<and> bestScored m lo hi c
    else findOptimalColor m lo hi boost = None)"
proof -
  have pos: "0 < totalScore c" if "c \<in> set (candidates m)" for c
  proof -
    from that obtain key where "(key, c) \<in> set m"
      by (auto simp add: candidates_def)
    with assms have "validEntry (key, c)"
      by (simp add: list_all_iff)
    then show ?thesis by (rule totalScore_positive)
  qed
  then have iff: "(\<exists>c \<in> set (candidates m). inBounds lo hi c \<and> 0 < totalScore c)
      \<longleftrightarrow> (\<exists>c \<in> set (candidates m). inBounds lo hi c)"
    by blast
  show ?thesis
  proof (cases "\<exists>c \<in> set (candidates m). inBounds lo hi c")
    case True
    with iff findOptimalLoop_spec [of m lo hi 0 None]
    obtain w where "w \<in> set (candidates m)" "findOptimalLoop m lo hi None 0 = Some w"
      "inBounds lo hi w"
      "\<forall>c' \<in> set (candidates m). inBounds lo hi c' \<longrightarrow> totalScore c' \<le> totalScore w"
      by auto
    then have "findOptimalColor m lo hi boost = Some w \<and> bestScored m lo hi w"
      by (simp add: findOptimalColor_def bestScored_def list_all_iff)
    with True show ?thesis by auto
  next
    case False
    with iff findOptimalLoop_spec [of m lo hi 0 None] show ?thesis
      by (simp add: findOptimalColor_def)
  qed
qed

lemma mostFrequent_spec:
  assumes "list_all validEntry m" and "m \<noteq> []"
  shows "\<exists>c. mostFrequentLoop m None 0 = Some c \<and> mostFrequent m c"
proof -
  from assms(2) obtain key c rest where m: "m = (key, c) # rest"
    by (cases m) auto
  with assms(1) have "0 < count c"
    by (simp add: validEntry_def)
  then have "\<exists>c \<in> set (candidates m). 0 < count c"
    by (auto simp add: m candidates_def)
  with mostFrequentLoop_spec [of m 0 None] show ?thesis
    by (auto simp add: mostFrequent_def list_all_iff)
qed

text \<open>
  The selection in the main path of \<open>extractDominantColor\<close> on a non-empty table built
  by the sampling loop.
\<close>

lemma selectBestColor_tiers:
  assumes "m = sampleLoop ign imageData []" and "m \<noteq> []"
  shows "\<exists>c. selectBestColor m minL maxL boost = Some c \<and>
           (if \<exists>c' \<in> set (candidates m). inBounds minL maxL c' then bestScored m minL maxL c
            else if \<exists>c' \<in> set (candidates m). inBounds 0.1 0.9 c' then bestScored m 0.1 0.9 c
            else mostFrequent m c)
         \<and> (\<forall>c'. totalScore c' =
               (0.4 * min (real (count c') / 10) 1 + 0.3 * min (saturation c' * 1.5) 1
                 + 0.3 * (1 - \<bar>c_luminance c' - 0.5\<bar>))
               * (if c_luminance c' > 0.25 then 1.2 else 1))"
proof -
  have valid: "list_all validEntry m"
    unfolding assms(1) by (rule analyze_valid)
  have score: "\<forall>c'. totalScore c' =
               (0.4 * min (real (count c') / 10) 1 + 0.3 * min (saturation c' * 1.5) 1
                 + 0.3 * (1 - \<bar>c_luminance c' - 0.5\<bar>))
               * (if c_luminance c' > 0.25 then 1.2 else 1)"
    by (simp add: totalScore_def Let_def mult.commute)
  show ?thesis
  proof (cases "\<exists>c' \<in> set (candidates m). inBounds minL maxL c'")
    case True
    with findOptimalColor_spec [OF valid, of minL maxL boost] score show ?thesis
      by (auto simp add: selectBestColor_def)
  next
    case strict: False
    with findOptimalColor_spec [OF valid, of minL maxL boost]
    have first: "findOptimalColor m minL maxL boost = None"
      by simp
    show ?thesis
    proof (cases "\<exists>c' \<in> set (candidates m). inBounds 0.1 0.9 c'")
      case True
      with findOptimalColor_spec [OF valid, of "1/10" "9/10" boost] strict first score show ?thesis
        by (auto simp add: selectBestColor_def)
    next
      case relaxed: False
      with findOptimalColor_spec [OF valid, of "1/10" "9/10" boost]
      have second: "findOptimalColor m 0.1 0.9 boost = None"
        by simp
      from mostFrequent_spec [OF valid assms(2)] strict relaxed first second score show ?thesis
        by (auto simp add: selectBestColor_def)
    qed
  qed
qed

subsection \<open>The hex field\<close>

lemma hexDigitChar_lower: "d < 16 \<Longrightarrow> lowerHexDigit (hexDigitChar d)"
  by (simp add: lowerHexDigit_def hexDigitChar_def del: set_simps list.set)

lemma natToString16_digit: "n < 16 \<Longrightarrow> natToString16 n = [hexDigitChar n]"
  by simp

lemma natToString16_byte:
  assumes "n < 256"
  shows "natToString16 n = (if n < 16 then [hexDigitChar n]
                            else [hexDigitChar (n div 16), hexDigitChar (n mod 16)])"
proof (cases "n < 16")
  case True
  then show ?thesis by (simp add: natToString16_digit del: natToString16.simps)
next
  case False
  from assms have "n div 16 < 16" by simp
  then have "natToString16 (n div 16) = [hexDigitChar (n div 16)]"
    by (rule natToString16_digit)
  with False show ?thesis
    by (subst natToString16.simps) (simp del: natToString16.simps)
qed

lemma toHex_byte:
  assumes "0 \<le> n" and "n \<le> 255"
  shows "length (toHex n) = 2 \<and> list_all lowerHexDigit (toHex n)"
proof -
  have n: "nat n < 256" using assms by simp
  have z: "lowerHexDigit CHR ''0''" by (simp add: lowerHexDigit_def)
  have d: "nat n div 16 < 16" "nat n mod 16 < 16" using n by simp_all
  show ?thesis
    using assms z hexDigitChar_lower [OF d(1)] hexDigitChar_lower [OF d(2)]
      hexDigitChar_lower [of "nat n"]
    by (simp add: toHex_def toString16_def natToString16_byte [OF n] Let_def
        del: natToString16.simps)
qed

lemma rgbToHex_wellFormed:
  assumes "0 \<le> r" "r \<le> 255" "0 \<le> g" "g \<le> 255" "0 \<le> b" "b \<le> 255"
  shows "wellFormedHex (rgbToHex r g b)"
  using toHex_byte [of r] toHex_byte [of g] toHex_byte [of b] assms
  by (simp add: wellFormedHex_def rgbToHex_def)

lemma boostColorBrightness_range:
  assumes "boostColorBrightness r g b t = (x, y, z)"
  shows "0 \<le> x \<and> x \<le> 255 \<and> 0 \<le> y \<and> y \<le> 255 \<and> 0 \<le> z \<and> z \<le> 255"
  using assms by (auto simp add: boostColorBrightness_def split: prod.splits)


lemma findOptimalLoop_member:
  "findOptimalLoop m lo hi best bs = Some c \<Longrightarrow> best = Some c \<or> c \<in> set (candidates m)"
  by (induction m lo hi best bs rule: findOptimalLoop.induct)
    (auto simp add: candidates_def split: if_splits)

lemma mostFrequentLoop_member:
  "mostFrequentLoop m best mc = Some c \<Longrightarrow> best = Some c \<or> c \<in> set (candidates m)"
  by (induction m best mc rule: mostFrequentLoop.induct)
    (auto simp add: candidates_def split: if_splits)

lemma findOptimalColor_member:
  "findOptimalColor m lo hi boost = Some c \<Longrightarrow> c \<in> set (candidates m)"
  using findOptimalLoop_member [of m lo hi None 0 c] by (simp add: findOptimalColor_def)

lemma selectBestColor_member:
  "selectBestColor m lo hi boost = Some c \<Longrightarrow> c \<in> set (candidates m)"
  using findOptimalColor_member [of m lo hi boost c] findOptimalColor_member [of m "0.1" "0.9" boost c]
    mostFrequentLoop_member [of m None 0 c]
  by (auto simp add: selectBestColor_def split: option.splits)

lemma candidate_valid:
  assumes "c \<in> set (candidates (sampleLoop ign imageData []))"
  shows "validEntry (c_rgb c, c)"
proof -
  from assms obtain key where "(key, c) \<in> set (sampleLoop ign imageData [])"
    by (auto simp add: candidates_def)
  with analyze_valid [of ign imageData] have "validEntry (key, c)"
    by (simp add: list_all_iff)
  then show ?thesis
    by (simp add: validEntry_def)
qed

text \<open>The three shapes a result can have.\<close>

lemma splitView_shape:
  assumes "extractFromSplitView env n options = Inr res"
  shows "res = createFallbackColor (orDefault (fallbackColor options) ''#4a5568'')
       \<or> (\<exists>c. validEntry (c_rgb c, c) \<and> res = fromCandidate c)"
proof -
  let ?half = "nat \<lfloor>real n / 2\<rfloor>"
  let ?low = "nat \<lfloor>real n * 0.67\<rfloor>"
  let ?lo = "orDefault (minLuminance options) 0.2"
  let ?hi = "orDefault (maxLuminance options) 0.85"
  let ?boost = "orDefault (enableContrastBoost options) True"
  from assms obtain leftData where left: "getImageData env 0 ?low ?half (n - ?low) = Inr leftData"
    by (cases "getImageData env 0 ?low ?half (n - ?low)") (simp_all add: extractFromSplitView_def)
  from assms left obtain rightData
    where right: "getImageData env ?half ?low ?half (n - ?low) = Inr rightData"
    by (cases "getImageData env ?half ?low ?half (n - ?low)") (simp_all add: extractFromSplitView_def)
  let ?L = "findOptimalColor (analyzeImageData leftData options) ?lo ?hi ?boost"
  let ?R = "findOptimalColor (analyzeImageData rightData options) ?lo ?hi ?boost"
  have vl: "validEntry (c_rgb c, c)" if "?L = Some c" for c
    using findOptimalColor_member [OF that] by (simp add: analyzeImageData_def candidate_valid)
  have vr: "validEntry (c_rgb c, c)" if "?R = Some c" for c
    using findOptimalColor_member [OF that] by (simp add: analyzeImageData_def candidate_valid)
  from assms left right have res: "res = (case (?L, ?R) of
              (Some lb, Some rb) \<Rightarrow> fromCandidate (if regionScore lb > regionScore rb then lb else rb)
            | (Some lb, None) \<Rightarrow> fromCandidate lb
            | (None, Some rb) \<Rightarrow> fromCandidate rb
            | (None, None) \<Rightarrow> createFallbackColor (orDefault (fallbackColor options) ''#4a5568''))"
    by (auto simp add: extractFromSplitView_def Let_def split: option.splits)
  show ?thesis
  proof (cases ?L)
    case None
    note l = this
    show ?thesis
    proof (cases ?R)
      case None
      with l res show ?thesis by simp
    next
      case (Some rb)
      with l res vr [OF Some] show ?thesis by auto
    qed
  next
    case (Some lb)
    note l = this
    show ?thesis
    proof (cases ?R)
      case None
      with l res vl [OF l] show ?thesis by auto
    next
      case (Some rb)
      with l res vl [OF l] vr [OF Some] show ?thesis by auto
    qed
  qed
qed

lemma body_shape:
  assumes "extractionBody env el options = Inr res"
  shows "res = createFallbackColor (orDefault (fallbackColor options) ''#4a5568'')
       \<or> (\<exists>c. validEntry (c_rgb c, c) \<and>
             (res = fromCandidate c
              \<or> res = finishColor (Some c) (orDefault (enableContrastBoost options) True)
                        (orDefault (fallbackColor options) ''#4a5568'')))"
proof -
  let ?fb = "orDefault (fallbackColor options) ''#4a5568''"
  let ?boost = "orDefault (enableContrastBoost options) True"
  let ?ign = "orDefault (ignoreBlackBackground options) True"
  from assms obtain p s where layout: "detectLayout env el
      (orDefault (analyzePortraitVideo options) True) (orDefault (handleSplitView options) True)
      = Inr (p, s)"
    by (cases "detectLayout env el (orDefault (analyzePortraitVideo options) True)
         (orDefault (handleSplitView options) True)") (auto simp add: extractionBody_def)
  show ?thesis
  proof (cases "chooseSampling p s (orDefault (sampleSize options) 50) ?ign
         (orDefault (handleSplitView options) True) (orDefault (sampleLowerThird options) True)")
    case SplitView
    with assms layout have "extractFromSplitView env (orDefault (sampleSize options) 50) options = Inr res"
      by (simp add: extractionBody_def Let_def)
    from splitView_shape [OF this] show ?thesis by blast
  next
    case (Region ox oy w h)
    with assms layout obtain imageData where d: "getImageData env ox oy w h = Inr imageData"
      by (cases "getImageData env ox oy w h") (simp_all add: extractionBody_def Let_def)
    let ?best = "selectBestColor (sampleLoop ?ign imageData [])
        (orDefault (minLuminance options) 0.2) (orDefault (maxLuminance options) 0.85) ?boost"
    from assms layout Region d have res: "res = finishColor ?best ?boost ?fb"
      by (simp add: extractionBody_def Let_def)
    show ?thesis
    proof (cases ?best)
      case None
      with res show ?thesis by (simp add: finishColor_def)
    next
      case (Some c)
      from selectBestColor_member [OF Some] have "validEntry (c_rgb c, c)"
        by (rule candidate_valid)
      with res Some show ?thesis by auto
    qed
  qed
qed

lemma extract_shape:
  "extractDominantColor env el options = createFallbackColor (orDefault (fallbackColor options) ''#4a5568'')
       \<or> (\<exists>c. validEntry (c_rgb c, c) \<and>
             (extractDominantColor env el options = fromCandidate c
              \<or> extractDominantColor env el options
                   = finishColor (Some c) (orDefault (enableContrastBoost options) True)
                        (orDefault (fallbackColor options) ''#4a5568'')))"
proof (cases "has_ctx env")
  case False
  then show ?thesis by (simp add: extractDominantColor_def)
next
  case True
  show ?thesis
  proof (cases "extractionBody env el options")
    case (Inl e)
    with True show ?thesis by (simp add: extractDominantColor_def Let_def)
  next
    case (Inr res)
    with True have "extractDominantColor env el options = res"
      by (simp add: extractDominantColor_def Let_def)
    with body_shape [OF Inr] show ?thesis by simp
  qed
qed

lemma wellFormed_defaults: "wellFormedHex ''#4a5568''" "wellFormedHex ''#6b7280''"
  by (simp_all add: wellFormedHex_def lowerHexDigit_def)

lemma fallback_hex:
  "wellFormedHex (hex (createFallbackColor fb))
   \<or> (hex (createFallbackColor fb) = fb \<and> hexToRgb fb \<noteq> None)"
  by (cases "hexToRgb fb") (auto simp add: createFallbackColor_def wellFormed_defaults)

lemma fromCandidate_hex:
  assumes "validEntry (c_rgb c, c)"
  shows "wellFormedHex (hex (fromCandidate c))"
proof -
  obtain r g b where rgb: "c_rgb c = (r, g, b)" by (cases "c_rgb c")
  with assms have "0 \<le> r" "r \<le> 255" "0 \<le> g" "g \<le> 255" "0 \<le> b" "b \<le> 255"
    by (simp_all add: validEntry_def)
  then have "wellFormedHex (rgbToHex r g b)"
    by (rule rgbToHex_wellFormed)
  then show ?thesis by (simp add: fromCandidate_def rgb)
qed

lemma finishColor_hex:
  assumes "validEntry (c_rgb c, c)"
  shows "wellFormedHex (hex (finishColor (Some c) boost fb))"
proof -
  obtain r g b where rgb: "c_rgb c = (r, g, b)" by (cases "c_rgb c")
  with assms have plain: "0 \<le> r" "r \<le> 255" "0 \<le> g" "g \<le> 255" "0 \<le> b" "b \<le> 255"
    by (simp_all add: validEntry_def)
  obtain x y z where final: "(if boost \<and> c_luminance c < 0.3
       then boostColorBrightness r g b 0.4 else (r, g, b)) = (x, y, z)"
    by (cases "if boost \<and> c_luminance c < 0.3 then boostColorBrightness r g b 0.4 else (r, g, b)")
  have "0 \<le> x \<and> x \<le> 255 \<and> 0 \<le> y \<and> y \<le> 255 \<and> 0 \<le> z \<and> z \<le> 255"
  proof (cases "boost \<and> c_luminance c < 0.3")
    case True
    with final have "boostColorBrightness r g b 0.4 = (x, y, z)" by simp
    then show ?thesis by (rule boostColorBrightness_range)
  next
    case False
    with final plain show ?thesis by auto
  qed
  then have "wellFormedHex (rgbToHex x y z)"
    by (intro rgbToHex_wellFormed) simp_all
  with final show ?thesis
    by (simp add: finishColor_def rgb Let_def)
qed

lemma extract_hex:
  "wellFormedHex (hex (extractDominantColor env el options))
   \<or> (hex (extractDominantColor env el options) = orDefault (fallbackColor options) ''#4a5568''
       \<and> hexToRgb (orDefault (fallbackColor options) ''#4a5568'') \<noteq> None)"
  using extract_shape [of env el options]
    fallback_hex [of "orDefault (fallbackColor options) ''#4a5568''"]
    fromCandidate_hex finishColor_hex
  by metis

lemma hexNormalOrVerbatim_fallback:
  "fallbackColor options = Value fb \<Longrightarrow> hexNormalOrVerbatim options (createFallbackColor fb)"
  using fallback_hex [of fb] by (auto simp add: hexNormalOrVerbatim_def)

lemma hexNormalOrVerbatim_default:
  "wellFormedHex d \<Longrightarrow> hexNormalOrVerbatim options (createFallbackColor (orElse (fallbackColor options) d))"
  using fallback_hex [of d] fallback_hex [of "theValue (fallbackColor options)"]
  by (auto simp add: hexNormalOrVerbatim_def orElse_def split: field.splits)

lemma hexNormalOrVerbatim_extract:
  assumes "orDefault (fallbackColor options') ''#4a5568'' = x"
    and "fallbackColor options = Value x \<or> wellFormedHex x"
  shows "hexNormalOrVerbatim options (extractDominantColor env el options')"
  using extract_hex [of env el options'] assms
  by (auto simp add: hexNormalOrVerbatim_def)

text \<open>
  Claim C3, amended. The \<open>hex\<close> field of every result of \<open>extractDominantColor\<close> and of the
  two entry points is a \<open>#\<close> followed by six lowercase hexadecimal digits, unless the
  result is the configured fallback colour, whose \<open>hex\<close> is the configured string as it
  was given: six hexadecimal digits of either case, with or without the leading \<open>#\<close>.
\<close>

theorem hex_field_format:
  "hexNormalOrVerbatim options (extractDominantColor env el options)
   \<and> hexNormalOrVerbatim options (extractColorFromVideo env videoElement options)
   \<and> (case extractColorFromImageUrl env loaded imageUrl options of
        Resolved res \<Rightarrow> hexNormalOrVerbatim options res
      | Rejected \<Rightarrow> True)"
proof (intro conjI)
  show "hexNormalOrVerbatim options (extractDominantColor env el options)"
    using extract_hex [of env el options]
    by (auto simp add: hexNormalOrVerbatim_def orDefault_def wellFormed_defaults
        split: field.splits)
next
  let ?merged = "spread (noOptions\<lparr> fallbackColor := Value (orElse (fallbackColor options) ''#4a5568''),
                                  enableContrastBoost := Value True,
                                  ignoreBlackBackground := Value True,
                                  minLuminance := Value 0.25,
                                  maxLuminance := Value 0.8,
                                  analyzePortraitVideo := Value True \<rparr>) options"
  have merged: "orDefault (fallbackColor ?merged) ''#4a5568''
      = (case fallbackColor options of Absent \<Rightarrow> ''#4a5568'' | Undefined \<Rightarrow> ''#4a5568''
         | Value v \<Rightarrow> v)"
    by (simp add: spread_def noOptions_def orElse_def orDefault_def split: field.splits)
  have "hexNormalOrVerbatim options (extractDominantColor env (HTMLVideoElement videoElement) ?merged)"
    by (rule hexNormalOrVerbatim_extract [OF merged])
      (simp add: wellFormed_defaults split: field.splits)
  then show "hexNormalOrVerbatim options (extractColorFromVideo env videoElement options)"
    by (auto simp add: extractColorFromVideo_def truthyString_def hexNormalOrVerbatim_fallback
        hexNormalOrVerbatim_default wellFormed_defaults split: field.splits)
next
  let ?merged = "spread (noOptions\<lparr> fallbackColor := Value (orElse (fallbackColor options) ''#6b7280''),
                                  enableContrastBoost := Value True,
                                  ignoreBlackBackground := Value True \<rparr>) options"
  have merged: "orDefault (fallbackColor ?merged) ''#4a5568''
      = (case fallbackColor options of Absent \<Rightarrow> ''#6b7280'' | Undefined \<Rightarrow> ''#4a5568''
         | Value v \<Rightarrow> v)"
    by (simp add: spread_def noOptions_def orElse_def orDefault_def split: field.splits)
  have "hexNormalOrVerbatim options (extractDominantColor env (HTMLImageElement img) ?merged)" for img
    by (rule hexNormalOrVerbatim_extract [OF merged])
      (simp add: wellFormed_defaults split: field.splits)
  then show "case extractColorFromImageUrl env loaded imageUrl options of
        Resolved res \<Rightarrow> hexNormalOrVerbatim options res
      | Rejected \<Rightarrow> True"
    by (auto simp add: extractColorFromImageUrl_def truthyString_def hexNormalOrVerbatim_fallback
        split: option.splits field.splits)
qed

text \<open>
  Claim C3, as stated, fails: the fallback \<open>ABCDEF\<close> is accepted by \<open>hexToRgb\<close> and comes
  back as the \<open>hex\<close> field unchanged, six characters long, uppercase and without \<open>#\<close>.
\<close>

theorem hex_field_counterexample:
  "hexToRgb ''ABCDEF'' = Some (171, 205, 239)
   \<and> hex (extractColorFromVideo unreadableEnv landscapeVideo
            (noOptions\<lparr>fallbackColor := Value ''ABCDEF''\<rparr>)) = ''ABCDEF''
   \<and> hex (extractDominantColor unreadableEnv HTMLCanvasElement
            (noOptions\<lparr>fallbackColor := Value ''ABCDEF''\<rparr>)) = ''ABCDEF''
   \<and> extractColorFromImageUrl unreadableEnv None ''photo.jpg''
        (noOptions\<lparr>fallbackColor := Value ''ABCDEF''\<rparr>)
       = Resolved \<lparr> hex = ''ABCDEF'', rgb = (171, 205, 239), luminance = getLuminance 171 205 239 \<rparr>"
proof -
  have parse: "hexToRgb ''ABCDEF'' = Some (171, 205, 239)"
    by (simp add: hexToRgb_def parseHexPair_def hexDigitValue_def)
  have fb: "createFallbackColor ''ABCDEF''
      = \<lparr> hex = ''ABCDEF'', rgb = (171, 205, 239), luminance = getLuminance 171 205 239 \<rparr>"
    by (simp add: createFallbackColor_def parse)
  have rt: "read_throws unreadableEnv"
    by (simp add: unreadableEnv_def)
  have fault: "extractDominantColor unreadableEnv el opts
      = createFallbackColor (orDefault (fallbackColor opts) ''#4a5568'')" for el opts
    using rt by (intro fault_fallback) blast
  show ?thesis
    by (simp add: parse extractColorFromVideo_def extractColorFromImageUrl_def truthyFlag_def
        truthyString_def landscapeVideo_def fault spread_def noOptions_def orDefault_def
        orElse_def fb)
qed

theorem hex_field_format_witness:
  "hexNormalOrVerbatim (noOptions\<lparr>fallbackColor := Value ''ABCDEF''\<rparr>)
     (extractDominantColor unreadableEnv HTMLCanvasElement (noOptions\<lparr>fallbackColor := Value ''ABCDEF''\<rparr>))
   \<and> hexNormalOrVerbatim (noOptions\<lparr>fallbackColor := Value ''ABCDEF''\<rparr>)
     (extractColorFromVideo unreadableEnv landscapeVideo (noOptions\<lparr>fallbackColor := Value ''ABCDEF''\<rparr>))
   \<and> hexNormalOrVerbatim (noOptions\<lparr>fallbackColor := Value ''ABCDEF''\<rparr>)
     \<lparr> hex = ''ABCDEF'', rgb = (171, 205, 239), luminance = getLuminance 171 205 239 \<rparr>"
proof -
  have img: "extractColorFromImageUrl unreadableEnv None ''photo.jpg''
        (noOptions\<lparr>fallbackColor := Value ''ABCDEF''\<rparr>)
       = Resolved \<lparr> hex = ''ABCDEF'', rgb = (171, 205, 239), luminance = getLuminance 171 205 239 \<rparr>"
    by (simp add: extractColorFromImageUrl_def truthyFlag_def truthyString_def noOptions_def
        createFallbackColor_def hexToRgb_def parseHexPair_def hexDigitValue_def)
  show ?thesis
    using hex_field_format [of "noOptions\<lparr>fallbackColor := Value ''ABCDEF''\<rparr>" unreadableEnv
        HTMLCanvasElement landscapeVideo None "''photo.jpg''"]
    by (simp add: img)
qed

subsection \<open>The luminance field\<close>

lemma fromCandidate_luminance:
  assumes "validEntry (c_rgb c, c)"
  shows "luminance (fromCandidate c) = (case rgb (fromCandidate c) of (r, g, b) \<Rightarrow> getLuminance r g b)"
proof -
  obtain r g b where rgb: "c_rgb c = (r, g, b)" by (cases "c_rgb c")
  with assms show ?thesis
    by (simp add: fromCandidate_def validEntry_def)
qed

lemma finishColor_luminance:
  "luminance (finishColor (Some c) boost fb)
     = (case rgb (finishColor (Some c) boost fb) of (r, g, b) \<Rightarrow> getLuminance r g b)"
  by (simp add: finishColor_def Let_def split: prod.splits)

lemma fallback_luminance:
  "luminance (createFallbackColor fb) = (case rgb (createFallbackColor fb) of (r, g, b) \<Rightarrow> getLuminance r g b)
   \<or> (hexToRgb fb = None
       \<and> createFallbackColor fb = \<lparr> hex = ''#6b7280'', rgb = (107, 114, 128), luminance = 0.4 \<rparr>)"
  by (cases "hexToRgb fb") (auto simp add: createFallbackColor_def)

lemma luminance_recomputed_or_literal:
  "luminance (extractDominantColor env el options)
     = (case rgb (extractDominantColor env el options) of (r, g, b) \<Rightarrow> getLuminance r g b)
   \<or> (hexToRgb (orDefault (fallbackColor options) ''#4a5568'') = None
       \<and> extractDominantColor env el options
           = \<lparr> hex = ''#6b7280'', rgb = (107, 114, 128), luminance = 0.4 \<rparr>)"
  using extract_shape [of env el options]
    fallback_luminance [of "orDefault (fallbackColor options) ''#4a5568''"]
    fromCandidate_luminance finishColor_luminance
  by metis

text \<open>
  Claim C2 at a failing input: with the fallback \<open>blue\<close>, which is not a hexadecimal
  colour, and an unreadable canvas, the video entry point returns the literal gray whose
  luminance field is 0.4, while the luminance of its rgb (107, 114, 128) is below 0.4.
  The literal of the earlier revision has the field 0.3 for an rgb of luminance below 0.3.
  (\<open>luminance_recomputed_or_literal\<close> above: this literal is the only result whose field
  differs from the recomputation.)
\<close>

theorem literal_gray_luminance:
  "hexToRgb ''blue'' = None
   \<and> extractColorFromVideo unreadableEnv landscapeVideo (noOptions\<lparr>fallbackColor := Value ''blue''\<rparr>)
       = \<lparr> hex = ''#6b7280'', rgb = (107, 114, 128), luminance = 0.4 \<rparr>
   \<and> getLuminance 107 114 128 < 0.4
   \<and> rgb legacyFallback = (74, 85, 104) \<and> luminance legacyFallback = 0.3
   \<and> getLuminance 74 85 104 < 0.3"
proof -
  have parse: "hexToRgb ''blue'' = None"
    by (simp add: hexToRgb_def)
  have rt: "read_throws unreadableEnv"
    by (simp add: unreadableEnv_def)
  have fault: "extractDominantColor unreadableEnv el opts
      = createFallbackColor (orDefault (fallbackColor opts) ''#4a5568'')" for el opts
    using rt by (intro fault_fallback) blast
  have "extractColorFromVideo unreadableEnv landscapeVideo (noOptions\<lparr>fallbackColor := Value ''blue''\<rparr>)
       = \<lparr> hex = ''#6b7280'', rgb = (107, 114, 128), luminance = 0.4 \<rparr>"
    by (simp add: extractColorFromVideo_def truthyFlag_def
        truthyString_def landscapeVideo_def fault spread_def noOptions_def orDefault_def
        orElse_def createFallbackColor_def parse)
  with parse luminance_gray_below luminance_legacy_below show ?thesis
    by (simp add: legacyFallback_def)
qed

subsection \<open>The contrast boost\<close>

lemma quantize_170: "quantize 170 = 168"
  by (simp add: quantize_def)

lemma quantize_0: "quantize 0 = 0"
  by (simp add: quantize_def)

lemma toHex_values: "toHex 0 = ''00''" "toHex 168 = ''a8''" "toHex 204 = ''cc''"
  by (simp_all add: toHex_def toString16_def hexDigitChar_def)

lemma boost_green: "boostColorBrightness 0 168 0 0.4 = (0, 204, 0)"
  by (simp add: boostColorBrightness_def rgbToHsl_def hslToRgb_def hue2rgb_def Let_def)

lemma saturation_green: "calculateSaturation 0 168 0 = 1"
  by (simp add: calculateSaturation_def)

lemma green_half:
  "getImageData greenEnv x 2 2 2 = Inr [(0, 170, 0, 255), (0, 170, 0, 255), (0, 170, 0, 255), (0, 170, 0, 255)]"
  by (simp add: getImageData_def greenEnv_def upt_2)

lemma green_half_table:
  "sampleLoop True [(0, 170, 0, 255), (0, 170, 0, 255), (0, 170, 0, 255), (0, 170, 0, 255)] []
     = [((0, 168, 0), \<lparr> count = 1, c_rgb = (0, 168, 0), c_luminance = getLuminance 0 168 0, saturation = 1 \<rparr>)]"
  by (simp add: recordSample_def quantize_170 quantize_0 mapHas_def saturation_green Let_def)

lemma green_lower:
  "getImageData greenEnv 0 2 4 2 = Inr [(0, 170, 0, 255), (0, 170, 0, 255), (0, 170, 0, 255), (0, 170, 0, 255),
      (0, 170, 0, 255), (0, 170, 0, 255), (0, 170, 0, 255), (0, 170, 0, 255)]"
  by (simp add: getImageData_def greenEnv_def upt_2 upt_4)

lemma green_lower_table:
  "sampleLoop True [(0, 170, 0, 255), (0, 170, 0, 255), (0, 170, 0, 255), (0, 170, 0, 255),
      (0, 170, 0, 255), (0, 170, 0, 255), (0, 170, 0, 255), (0, 170, 0, 255)] []
     = [((0, 168, 0), \<lparr> count = 2, c_rgb = (0, 168, 0), c_luminance = getLuminance 0 168 0, saturation = 1 \<rparr>)]"
  by (simp add: recordSample_def quantize_170 quantize_0 mapHas_def saturation_green
      incrementCount_def Let_def)

lemma green_found:
  assumes "0 < n" and "lo \<le> 0.2" and "0.3 \<le> hi"
  shows "findOptimalColor [((0, 168, 0), \<lparr> count = n, c_rgb = (0, 168, 0),
            c_luminance = getLuminance 0 168 0, saturation = 1 \<rparr>)] lo hi boost
     = Some \<lparr> count = n, c_rgb = (0, 168, 0), c_luminance = getLuminance 0 168 0, saturation = 1 \<rparr>"
proof -
  let ?c = "\<lparr> count = n, c_rgb = (0, 168, 0), c_luminance = getLuminance 0 168 0, saturation = 1 \<rparr>"
  have "validEntry ((0, 168, 0), ?c)"
    using assms(1) by (simp add: validEntry_def saturation_green)
  then have "0 < totalScore ?c"
    by (rule totalScore_positive)
  with luminance_green assms(2,3) show ?thesis
    by (simp add: findOptimalColor_def)
qed

lemma main_path_boost:
  assumes "c_luminance c < 0.3" and "c_rgb c = (r, g, b)"
  shows "rgb (finishColor (Some c) True fb) = boostColorBrightness r g b 0.4"
  using assms by (simp add: finishColor_def Let_def split: prod.splits)


text \<open>
  Claim C5 at a failing input. The main path boosts a dark winner (\<open>main_path_boost\<close>),
  the split view does not: for a 3:1 image drawn as one dark green (0, 170, 0) on a 4 by 4
  canvas, with \<open>enableContrastBoost\<close> in effect, the image entry point returns the
  quantised (0, 168, 0), whose luminance is below 0.3, while \<open>boostColorBrightness\<close> gives
  (0, 204, 0) for it, which is what the main path returns for the same pixels drawn from a
  canvas element.
\<close>

theorem split_view_skips_boost:
  "orDefault (enableContrastBoost smallCanvasOptions) True
   \<and> extractColorFromImageUrl greenEnv (Some wideImage) ''panorama.jpg'' smallCanvasOptions
       = Resolved \<lparr> hex = ''#00a800'', rgb = (0, 168, 0), luminance = getLuminance 0 168 0 \<rparr>
   \<and> getLuminance 0 168 0 < 0.3
   \<and> boostColorBrightness 0 168 0 0.4 = (0, 204, 0)
   \<and> extractDominantColor greenEnv HTMLCanvasElement smallCanvasOptions
       = \<lparr> hex = ''#00cc00'', rgb = (0, 204, 0), luminance = getLuminance 0 204 0 \<rparr>"
proof (intro conjI)
  have ctx: "has_ctx greenEnv" "\<not> draw_throws greenEnv"
    by (simp_all add: greenEnv_def)
  show "orDefault (enableContrastBoost smallCanvasOptions) True"
    by (simp add: smallCanvasOptions_def noOptions_def orDefault_def)
  show "getLuminance 0 168 0 < 0.3"
    using luminance_green by simp
  show "boostColorBrightness 0 168 0 0.4 = (0, 204, 0)"
    by (rule boost_green)
  have split: "extractFromSplitView greenEnv 4 opts
      = Inr \<lparr> hex = ''#00a800'', rgb = (0, 168, 0), luminance = getLuminance 0 168 0 \<rparr>"
    if "ignoreBlackBackground opts = Value True" "minLuminance opts = Absent" "maxLuminance opts = Absent"
    for opts
    using that
    by (simp add: extractFromSplitView_def green_half analyzeImageData_def orDefault_def
        green_half_table green_found fromCandidate_def rgbToHex_def toHex_values
        del: sampleLoop.simps)
  show "extractColorFromImageUrl greenEnv (Some wideImage) ''panorama.jpg'' smallCanvasOptions
       = Resolved \<lparr> hex = ''#00a800'', rgb = (0, 168, 0), luminance = getLuminance 0 168 0 \<rparr>"
    by (simp add: extractColorFromImageUrl_def truthyFlag_def truthyString_def
        smallCanvasOptions_def noOptions_def spread_def orElse_def extractDominantColor_def
        extractionBody_def ctx orDefault_def detectLayout_def wideImage_def chooseSampling_def
        split)
  have boosted: "boostColorBrightness 0 168 0 (2 / 5) = (0, 204, 0)"
    using boost_green by simp
  show "extractDominantColor greenEnv HTMLCanvasElement smallCanvasOptions
       = \<lparr> hex = ''#00cc00'', rgb = (0, 204, 0), luminance = getLuminance 0 204 0 \<rparr>"
    using luminance_green
    by (simp add: smallCanvasOptions_def noOptions_def extractDominantColor_def
        extractionBody_def ctx orDefault_def detectLayout_def chooseSampling_def
        green_lower green_lower_table selectBestColor_def green_found finishColor_def
        boosted rgbToHex_def toHex_values del: sampleLoop.simps)
qed

subsection \<open>The flag \<open>useFallbackOnly\<close> without a fallback colour\<close>

lemma luminance_white_above: "0.3 \<le> getLuminance 240 240 240"
proof -
  have "0.3 \<le> linearize 240"
    by (rule linearize_lower; simp add: power_divide divide_simps)
  then show ?thesis by (simp add: getLuminance_def)
qed

lemma lastRow_lower_table_ignoring:
  "sampleLoop True
     [(0, 0, 0, 0), (0, 0, 0, 0), (0, 0, 0, 0), (0, 0, 0, 0), (0, 0, 0, 0),
      (255, 255, 255, 255), (255, 255, 255, 255), (255, 255, 255, 255),
      (255, 255, 255, 255), (255, 255, 255, 255)] []
     = [((240, 240, 240), \<lparr> count = 1, c_rgb = (240, 240, 240),
           c_luminance = getLuminance 240 240 240, saturation = 0 \<rparr>)]"
  by (simp add: recordSample_def quantize_255 mapHas_def calculateSaturation_def)

text \<open>
  Claim C7, as stated, fails: with \<open>useFallbackOnly\<close> set and no fallback colour
  configured, the video entry point analyses the pixels. On a 5 by 5 canvas it returns the
  white of the last row when that row is white, and the default \<open>#4a5568\<close> when the
  canvas is blank.
\<close>

theorem useFallbackOnly_counterexample:
  "useFallbackOnly analysisOnlyOptions = Value True
   \<and> extractColorFromVideo lastRowEnv landscapeVideo analysisOnlyOptions
       = \<lparr> hex = ''#f0f0f0'', rgb = (240, 240, 240), luminance = getLuminance 240 240 240 \<rparr>
   \<and> extractColorFromVideo blankEnv landscapeVideo analysisOnlyOptions
       = \<lparr> hex = ''#4a5568'', rgb = (74, 85, 104), luminance = getLuminance 74 85 104 \<rparr>"
proof (intro conjI)
  show "useFallbackOnly analysisOnlyOptions = Value True"
    by (simp add: analysisOnlyOptions_def noOptions_def)
  have ctx: "has_ctx lastRowEnv" "\<not> draw_throws lastRowEnv"
    by (simp_all add: lastRowEnv_def)
  show "extractColorFromVideo lastRowEnv landscapeVideo analysisOnlyOptions
       = \<lparr> hex = ''#f0f0f0'', rgb = (240, 240, 240), luminance = getLuminance 240 240 240 \<rparr>"
    using luminance_white_above
    by (simp add: extractColorFromVideo_def truthyFlag_def truthyString_def
        analysisOnlyOptions_def noOptions_def landscapeVideo_def spread_def orElse_def
        extractDominantColor_def extractionBody_def ctx orDefault_def detectLayout_def
        chooseSampling_def lastRow_lower_third lastRow_lower_table_ignoring
        selectBestColor_single finishColor_def rgbToHex_def toHex_240
        del: sampleLoop.simps)
  have black: "\<forall>x y. nearBlack (pixel_at blankEnv x y)"
    by (simp add: blankEnv_def nearBlack_def)
  have "extractDominantColor blankEnv el opts
      = createFallbackColor (orDefault (fallbackColor opts) ''#4a5568'')"
    if "orDefault (ignoreBlackBackground opts) True" for el opts
    using black that by (rule extract_nearBlack)
  then show "extractColorFromVideo blankEnv landscapeVideo analysisOnlyOptions
       = \<lparr> hex = ''#4a5568'', rgb = (74, 85, 104), luminance = getLuminance 74 85 104 \<rparr>"
    by (simp add: extractColorFromVideo_def truthyFlag_def truthyString_def
        analysisOnlyOptions_def noOptions_def landscapeVideo_def spread_def orElse_def
        orDefault_def fallback_4a5568)
qed

subsection \<open>The tiers of the selection\<close>

lemma luminance_white_bright:
  "0.85 < getLuminance 240 240 240 \<and> getLuminance 240 240 240 < 0.9"
proof -
  have "0.86 \<le> linearize 240"
    by (rule linearize_lower; simp add: power_divide divide_simps)
  moreover have "linearize 240 < 0.9"
    by (rule linearize_upper; simp add: power_divide divide_simps)
  ultimately show ?thesis by (simp add: getLuminance_def)
qed

lemma luminance_silver: "0.2 \<le> getLuminance 192 192 192 \<and> getLuminance 192 192 192 \<le> 0.85"
proof -
  have "0.2 \<le> linearize 192"
    by (rule linearize_lower; simp add: power_divide divide_simps)
  moreover have "linearize 192 < 0.85"
    by (rule linearize_upper; simp add: power_divide divide_simps)
  ultimately show ?thesis by (simp add: getLuminance_def)
qed

lemma quantize_200: "quantize 200 = 192"
  by (simp add: quantize_def)

lemma white_half:
  "getImageData whiteEnv x 2 2 2
     = Inr [(255, 255, 255, 255), (255, 255, 255, 255), (255, 255, 255, 255), (255, 255, 255, 255)]"
  by (simp add: getImageData_def whiteEnv_def upt_2)

lemma white_half_table:
  "sampleLoop True
     [(255, 255, 255, 255), (255, 255, 255, 255), (255, 255, 255, 255), (255, 255, 255, 255)] []
     = [((240, 240, 240), \<lparr> count = 1, c_rgb = (240, 240, 240),
           c_luminance = getLuminance 240 240 240, saturation = 0 \<rparr>)]"
  by (simp add: recordSample_def quantize_255 mapHas_def calculateSaturation_def)

lemma white_lower:
  "getImageData whiteEnv 0 2 4 2
     = Inr [(255, 255, 255, 255), (255, 255, 255, 255), (255, 255, 255, 255), (255, 255, 255, 255),
            (255, 255, 255, 255), (255, 255, 255, 255), (255, 255, 255, 255), (255, 255, 255, 255)]"
  by (simp add: getImageData_def whiteEnv_def upt_2 upt_4)

lemma white_lower_table:
  "sampleLoop True
     [(255, 255, 255, 255), (255, 255, 255, 255), (255, 255, 255, 255), (255, 255, 255, 255),
      (255, 255, 255, 255), (255, 255, 255, 255), (255, 255, 255, 255), (255, 255, 255, 255)] []
     = [((240, 240, 240), \<lparr> count = 2, c_rgb = (240, 240, 240),
           c_luminance = getLuminance 240 240 240, saturation = 0 \<rparr>)]"
  by (simp add: recordSample_def quantize_255 mapHas_def calculateSaturation_def
      incrementCount_def)

lemma white_skipped:
  assumes "hi \<le> 0.85"
  shows "findOptimalColor [((240, 240, 240), \<lparr> count = n, c_rgb = (240, 240, 240),
            c_luminance = getLuminance 240 240 240, saturation = 0 \<rparr>)] lo hi boost = None"
  using luminance_white_bright assms by (simp add: findOptimalColor_def)

lemma white_selected:
  assumes "0 < n"
  shows "selectBestColor [((240, 240, 240), \<lparr> count = n, c_rgb = (240, 240, 240),
            c_luminance = getLuminance 240 240 240, saturation = 0 \<rparr>)] 0.2 0.85 boost
     = Some \<lparr> count = n, c_rgb = (240, 240, 240),
            c_luminance = getLuminance 240 240 240, saturation = 0 \<rparr>"
proof -
  let ?c = "\<lparr> count = n, c_rgb = (240, 240, 240),
            c_luminance = getLuminance 240 240 240, saturation = 0 \<rparr>"
  have "validEntry ((240, 240, 240), ?c)"
    using assms by (simp add: validEntry_def calculateSaturation_def)
  then have "0 < totalScore ?c"
    by (rule totalScore_positive)
  with luminance_white_bright show ?thesis
    by (simp add: selectBestColor_def findOptimalColor_def)
qed

text \<open>
  Claim C6, as stated, fails on the split-view path. For a 3:1 image drawn white on a 4 by
  4 canvas the table of each half is not empty, and the three tiers select its entry
  (240, 240, 240), which is what \<open>extractDominantColor\<close> returns for the same pixels drawn
  from a canvas element. For the image the luminance of the entry is above
  \<open>maxLuminance\<close>, the split view stops after the first tier, and the result is the
  fallback colour: \<open>#4a5568\<close> from \<open>extractDominantColor\<close>, \<open>#6b7280\<close> from the image
  entry point.
\<close>

theorem three_tier_counterexample:
  "getImageData whiteEnv 0 2 2 2
     = Inr [(255, 255, 255, 255), (255, 255, 255, 255), (255, 255, 255, 255), (255, 255, 255, 255)]
   \<and> getImageData whiteEnv 2 2 2 2
     = Inr [(255, 255, 255, 255), (255, 255, 255, 255), (255, 255, 255, 255), (255, 255, 255, 255)]
   \<and> analyzeImageData
       [(255, 255, 255, 255), (255, 255, 255, 255), (255, 255, 255, 255), (255, 255, 255, 255)]
       smallCanvasOptions
     = [((240, 240, 240), \<lparr> count = 1, c_rgb = (240, 240, 240),
           c_luminance = getLuminance 240 240 240, saturation = 0 \<rparr>)]
   \<and> selectBestColor
       [((240, 240, 240), \<lparr> count = 1, c_rgb = (240, 240, 240),
           c_luminance = getLuminance 240 240 240, saturation = 0 \<rparr>)] 0.2 0.85 True
     = Some \<lparr> count = 1, c_rgb = (240, 240, 240),
           c_luminance = getLuminance 240 240 240, saturation = 0 \<rparr>
   \<and> extractDominantColor whiteEnv (HTMLImageElement wideImage) smallCanvasOptions
     = \<lparr> hex = ''#4a5568'', rgb = (74, 85, 104), luminance = getLuminance 74 85 104 \<rparr>
   \<and> extractColorFromImageUrl whiteEnv (Some wideImage) ''panorama.jpg'' smallCanvasOptions
     = Resolved \<lparr> hex = ''#6b7280'', rgb = (107, 114, 128), luminance = getLuminance 107 114 128 \<rparr>
   \<and> extractDominantColor whiteEnv HTMLCanvasElement smallCanvasOptions
     = \<lparr> hex = ''#f0f0f0'', rgb = (240, 240, 240), luminance = getLuminance 240 240 240 \<rparr>"
proof (intro conjI)
  have ctx: "has_ctx whiteEnv" "\<not> draw_throws whiteEnv"
    by (simp_all add: whiteEnv_def)
  show "getImageData whiteEnv 0 2 2 2
     = Inr [(255, 255, 255, 255), (255, 255, 255, 255), (255, 255, 255, 255), (255, 255, 255, 255)]"
    by (rule white_half)
  show "getImageData whiteEnv 2 2 2 2
     = Inr [(255, 255, 255, 255), (255, 255, 255, 255), (255, 255, 255, 255), (255, 255, 255, 255)]"
    by (rule white_half)
  show "analyzeImageData
       [(255, 255, 255, 255), (255, 255, 255, 255), (255, 255, 255, 255), (255, 255, 255, 255)]
       smallCanvasOptions
     = [((240, 240, 240), \<lparr> count = 1, c_rgb = (240, 240, 240),
           c_luminance = getLuminance 240 240 240, saturation = 0 \<rparr>)]"
    by (simp add: analyzeImageData_def smallCanvasOptions_def noOptions_def orDefault_def
        white_half_table del: sampleLoop.simps)
  show "selectBestColor
       [((240, 240, 240), \<lparr> count = 1, c_rgb = (240, 240, 240),
           c_luminance = getLuminance 240 240 240, saturation = 0 \<rparr>)] 0.2 0.85 True
     = Some \<lparr> count = 1, c_rgb = (240, 240, 240),
           c_luminance = getLuminance 240 240 240, saturation = 0 \<rparr>"
    by (rule white_selected) simp
  have split: "extractFromSplitView whiteEnv 4 opts
      = Inr (createFallbackColor (orDefault (fallbackColor opts) ''#4a5568''))"
    if "orDefault (ignoreBlackBackground opts) True" "orDefault (maxLuminance opts) 0.85 \<le> 0.85"
    for opts
    using that
    by (simp add: extractFromSplitView_def white_half analyzeImageData_def
        white_half_table white_skipped del: sampleLoop.simps)
  show "extractDominantColor whiteEnv (HTMLImageElement wideImage) smallCanvasOptions
     = \<lparr> hex = ''#4a5568'', rgb = (74, 85, 104), luminance = getLuminance 74 85 104 \<rparr>"
    by (simp add: smallCanvasOptions_def noOptions_def extractDominantColor_def
        extractionBody_def ctx orDefault_def detectLayout_def wideImage_def chooseSampling_def
        split fallback_4a5568)
  show "extractColorFromImageUrl whiteEnv (Some wideImage) ''panorama.jpg'' smallCanvasOptions
     = Resolved \<lparr> hex = ''#6b7280'', rgb = (107, 114, 128), luminance = getLuminance 107 114 128 \<rparr>"
    by (simp add: extractColorFromImageUrl_def truthyFlag_def truthyString_def
        smallCanvasOptions_def noOptions_def spread_def orElse_def extractDominantColor_def
        extractionBody_def ctx orDefault_def detectLayout_def wideImage_def chooseSampling_def
        split fallback_6b7280)
  have sel: "selectBestColor [((240, 240, 240), \<lparr> count = 2, c_rgb = (240, 240, 240),
            c_luminance = getLuminance 240 240 240, saturation = 0 \<rparr>)] (1 / 5) (17 / 20) True
     = Some \<lparr> count = 2, c_rgb = (240, 240, 240),
            c_luminance = getLuminance 240 240 240, saturation = 0 \<rparr>"
    using white_selected [of 2 True] by simp
  show "extractDominantColor whiteEnv HTMLCanvasElement smallCanvasOptions
     = \<lparr> hex = ''#f0f0f0'', rgb = (240, 240, 240), luminance = getLuminance 240 240 240 \<rparr>"
    using luminance_white_bright
    by (simp add: smallCanvasOptions_def noOptions_def extractDominantColor_def
        extractionBody_def ctx orDefault_def detectLayout_def chooseSampling_def
        white_lower white_lower_table sel finishColor_def rgbToHex_def toHex_240
        del: sampleLoop.simps)
qed

lemma splitView_tiers:
  assumes "getImageData env 0 (nat \<lfloor>real n * 0.67\<rfloor>) (nat \<lfloor>real n / 2\<rfloor>)
             (n - nat \<lfloor>real n * 0.67\<rfloor>) = Inr leftData"
    and "getImageData env (nat \<lfloor>real n / 2\<rfloor>) (nat \<lfloor>real n * 0.67\<rfloor>) (nat \<lfloor>real n / 2\<rfloor>)
             (n - nat \<lfloor>real n * 0.67\<rfloor>) = Inr rightData"
    and "ml = analyzeImageData leftData options" and "mr = analyzeImageData rightData options"
    and "lo = orDefault (minLuminance options) 0.2" and "hi = orDefault (maxLuminance options) 0.85"
  shows "if (\<exists>c' \<in> set (candidates ml). inBounds lo hi c')
            \<and> (\<exists>c' \<in> set (candidates mr). inBounds lo hi c')
         then \<exists>cl cr. bestScored ml lo hi cl \<and> bestScored mr lo hi cr
                \<and> extractFromSplitView env n options
                    = Inr (fromCandidate (if regionScore cl > regionScore cr then cl else cr))
         else if \<exists>c' \<in> set (candidates ml). inBounds lo hi c'
         then \<exists>cl. bestScored ml lo hi cl
                \<and> extractFromSplitView env n options = Inr (fromCandidate cl)
         else if \<exists>c' \<in> set (candidates mr). inBounds lo hi c'
         then \<exists>cr. bestScored mr lo hi cr
                \<and> extractFromSplitView env n options = Inr (fromCandidate cr)
         else extractFromSplitView env n options
                = Inr (createFallbackColor (orDefault (fallbackColor options) ''#4a5568''))"
proof -
  let ?boost = "orDefault (enableContrastBoost options) True"
  have validl: "list_all validEntry ml"
    unfolding assms(3) analyzeImageData_def by (rule analyze_valid)
  have validr: "list_all validEntry mr"
    unfolding assms(4) analyzeImageData_def by (rule analyze_valid)
  have unfolded: "extractFromSplitView env n options =
      (case (findOptimalColor ml lo hi ?boost, findOptimalColor mr lo hi ?boost) of
         (Some lb, Some rb) \<Rightarrow>
           Inr (fromCandidate (if regionScore lb > regionScore rb then lb else rb))
       | (Some lb, None) \<Rightarrow> Inr (fromCandidate lb)
       | (None, Some rb) \<Rightarrow> Inr (fromCandidate rb)
       | (None, None) \<Rightarrow>
           Inr (createFallbackColor (orDefault (fallbackColor options) ''#4a5568'')))"
    unfolding extractFromSplitView_def Let_def assms(1,2) sum.case assms(3-6) ..
  let ?L = "\<exists>c' \<in> set (candidates ml). inBounds lo hi c'"
  let ?R = "\<exists>c' \<in> set (candidates mr). inBounds lo hi c'"
  show ?thesis
  proof (cases ?L)
    case l: True
    with findOptimalColor_spec [OF validl, of lo hi ?boost]
    obtain cl where cl: "findOptimalColor ml lo hi ?boost = Some cl" "bestScored ml lo hi cl"
      by auto
    show ?thesis
    proof (cases ?R)
      case r: True
      with findOptimalColor_spec [OF validr, of lo hi ?boost]
      obtain cr where cr: "findOptimalColor mr lo hi ?boost = Some cr" "bestScored mr lo hi cr"
        by auto
      have res: "extractFromSplitView env n options
          = Inr (fromCandidate (if regionScore cl > regionScore cr then cl else cr))"
        by (simp add: unfolded cl cr)
      from l r have both: "?L \<and> ?R"
        by blast
      show ?thesis
        unfolding if_P [OF both] using cl(2) cr(2) res by blast
    next
      case r: False
      with findOptimalColor_spec [OF validr, of lo hi ?boost]
      have "findOptimalColor mr lo hi ?boost = None"
        by simp
      then have res: "extractFromSplitView env n options = Inr (fromCandidate cl)"
        by (simp add: unfolded cl)
      from r have both: "\<not> (?L \<and> ?R)"
        by blast
      show ?thesis
        unfolding if_not_P [OF both] if_P [OF l] using cl(2) res by blast
    qed
  next
    case l: False
    with findOptimalColor_spec [OF validl, of lo hi ?boost]
    have none: "findOptimalColor ml lo hi ?boost = None"
      by simp
    from l have both: "\<not> (?L \<and> ?R)"
      by blast
    show ?thesis
    proof (cases ?R)
      case r: True
      with findOptimalColor_spec [OF validr, of lo hi ?boost]
      obtain cr where cr: "findOptimalColor mr lo hi ?boost = Some cr" "bestScored mr lo hi cr"
        by auto
      have res: "extractFromSplitView env n options = Inr (fromCandidate cr)"
        by (simp add: unfolded none cr)
      show ?thesis
        unfolding if_not_P [OF both] if_not_P [OF l] if_P [OF r] using cr(2) res by blast
    next
      case r: False
      with findOptimalColor_spec [OF validr, of lo hi ?boost]
      have "findOptimalColor mr lo hi ?boost = None"
        by simp
      then have res: "extractFromSplitView env n options
          = Inr (createFallbackColor (orDefault (fallbackColor options) ''#4a5568''))"
        by (simp add: unfolded none)
      show ?thesis
        unfolding if_not_P [OF both] if_not_P [OF l] if_not_P [OF r] by (rule res)
    qed
  qed
qed

text \<open>
  Claim C6, amended. In the main path of \<open>extractDominantColor\<close>, for a non-empty
  frequency table built by the sampling loop, the selection returns a candidate: one of
  maximal score among those with luminance between \<open>minLuminance\<close> and \<open>maxLuminance\<close> if
  there is any; otherwise one of maximal score among those with luminance between 0.1 and
  0.9 if there is any; otherwise one of maximal count. In the split view only the first of
  these tiers is applied, to the table of each half: the result is made from the
  candidate of maximal score within the bounds of the one half that has such a candidate,
  from the one of higher \<open>regionScore\<close> (the right one on a tie) when both halves have one,
  and it is the fallback colour when neither has, empty tables or not. The score is
  \<open>(0.4 min(count/10, 1) + 0.3 min(1.5 saturation, 1) + 0.3 (1 - |luminance - 0.5|))\<close>
  times 1.2 when the luminance exceeds 0.25.
\<close>

theorem tiered_selection:
  "(m = sampleLoop ign imageData [] \<and> m \<noteq> [] \<longrightarrow>
      (\<exists>c. selectBestColor m minL maxL boost = Some c \<and>
           (if \<exists>c' \<in> set (candidates m). inBounds minL maxL c' then bestScored m minL maxL c
            else if \<exists>c' \<in> set (candidates m). inBounds 0.1 0.9 c' then bestScored m 0.1 0.9 c
            else mostFrequent m c)))
   \<and> (getImageData env 0 (nat \<lfloor>real n * 0.67\<rfloor>) (nat \<lfloor>real n / 2\<rfloor>)
          (n - nat \<lfloor>real n * 0.67\<rfloor>) = Inr leftData
      \<and> getImageData env (nat \<lfloor>real n / 2\<rfloor>) (nat \<lfloor>real n * 0.67\<rfloor>) (nat \<lfloor>real n / 2\<rfloor>)
          (n - nat \<lfloor>real n * 0.67\<rfloor>) = Inr rightData
      \<and> ml = analyzeImageData leftData options \<and> mr = analyzeImageData rightData options
      \<and> lo = orDefault (minLuminance options) 0.2
      \<and> hi = orDefault (maxLuminance options) 0.85 \<longrightarrow>
        (if (\<exists>c' \<in> set (candidates ml). inBounds lo hi c')
            \<and> (\<exists>c' \<in> set (candidates mr). inBounds lo hi c')
         then \<exists>cl cr. bestScored ml lo hi cl \<and> bestScored mr lo hi cr
                \<and> extractFromSplitView env n options
                    = Inr (fromCandidate (if regionScore cl > regionScore cr then cl else cr))
         else if \<exists>c' \<in> set (candidates ml). inBounds lo hi c'
         then \<exists>cl. bestScored ml lo hi cl
                \<and> extractFromSplitView env n options = Inr (fromCandidate cl)
         else if \<exists>c' \<in> set (candidates mr). inBounds lo hi c'
         then \<exists>cr. bestScored mr lo hi cr
                \<and> extractFromSplitView env n options = Inr (fromCandidate cr)
         else extractFromSplitView env n options
                = Inr (createFallbackColor (orDefault (fallbackColor options) ''#4a5568''))))
   \<and> (\<forall>c'. totalScore c' =
         (0.4 * min (real (count c') / 10) 1 + 0.3 * min (saturation c' * 1.5) 1
           + 0.3 * (1 - \<bar>c_luminance c' - 0.5\<bar>))
         * (if c_luminance c' > 0.25 then 1.2 else 1))
   \<and> (\<forall>c'. regionScore c' = 0.6 * saturation c' + 0.4 * (1 - \<bar>c_luminance c' - 0.5\<bar>))"
proof (intro conjI impI)
  assume "m = sampleLoop ign imageData [] \<and> m \<noteq> []"
  then have "m = sampleLoop ign imageData []" "m \<noteq> []"
    by blast+
  from selectBestColor_tiers [OF this, of minL maxL boost]
  show "\<exists>c. selectBestColor m minL maxL boost = Some c \<and>
           (if \<exists>c' \<in> set (candidates m). inBounds minL maxL c' then bestScored m minL maxL c
            else if \<exists>c' \<in> set (candidates m). inBounds 0.1 0.9 c' then bestScored m 0.1 0.9 c
            else mostFrequent m c)"
    by blast
next
  assume "getImageData env 0 (nat \<lfloor>real n * 0.67\<rfloor>) (nat \<lfloor>real n / 2\<rfloor>)
          (n - nat \<lfloor>real n * 0.67\<rfloor>) = Inr leftData
      \<and> getImageData env (nat \<lfloor>real n / 2\<rfloor>) (nat \<lfloor>real n * 0.67\<rfloor>) (nat \<lfloor>real n / 2\<rfloor>)
          (n - nat \<lfloor>real n * 0.67\<rfloor>) = Inr rightData
      \<and> ml = analyzeImageData leftData options \<and> mr = analyzeImageData rightData options
      \<and> lo = orDefault (minLuminance options) 0.2
      \<and> hi = orDefault (maxLuminance options) 0.85"
  then show "if (\<exists>c' \<in> set (candidates ml). inBounds lo hi c')
            \<and> (\<exists>c' \<in> set (candidates mr). inBounds lo hi c')
         then \<exists>cl cr. bestScored ml lo hi cl \<and> bestScored mr lo hi cr
                \<and> extractFromSplitView env n options
                    = Inr (fromCandidate (if regionScore cl > regionScore cr then cl else cr))
         else if \<exists>c' \<in> set (candidates ml). inBounds lo hi c'
         then \<exists>cl. bestScored ml lo hi cl
                \<and> extractFromSplitView env n options = Inr (fromCandidate cl)
         else if \<exists>c' \<in> set (candidates mr). inBounds lo hi c'
         then \<exists>cr. bestScored mr lo hi cr
                \<and> extractFromSplitView env n options = Inr (fromCandidate cr)
         else extractFromSplitView env n options
                = Inr (createFallbackColor (orDefault (fallbackColor options) ''#4a5568''))"
    by (intro splitView_tiers) simp_all
next
  show "\<forall>c'. totalScore c' =
         (0.4 * min (real (count c') / 10) 1 + 0.3 * min (saturation c' * 1.5) 1
           + 0.3 * (1 - \<bar>c_luminance c' - 0.5\<bar>))
         * (if c_luminance c' > 0.25 then 1.2 else 1)"
    by (simp add: totalScore_def Let_def mult.commute)
next
  show "\<forall>c'. regionScore c' = 0.6 * saturation c' + 0.4 * (1 - \<bar>c_luminance c' - 0.5\<bar>)"
    by (simp add: regionScore_def algebra_simps)
qed

lemma silver_green_table:
  "sampleLoop True [(200, 200, 200, 255), (0, 0, 0, 0), (0, 0, 0, 0), (0, 0, 0, 0), (0, 170, 0, 255)] []
     = [((192, 192, 192), \<lparr> count = 1, c_rgb = (192, 192, 192),
           c_luminance = getLuminance 192 192 192, saturation = 0 \<rparr>),
        ((0, 168, 0), \<lparr> count = 1, c_rgb = (0, 168, 0),
           c_luminance = getLuminance 0 168 0, saturation = 1 \<rparr>)]"
  by (simp add: recordSample_def quantize_200 quantize_170 quantize_0 mapHas_def
      calculateSaturation_def Let_def)

lemma silver_score:
  "totalScore \<lparr> count = 1, c_rgb = (192, 192, 192),
      c_luminance = getLuminance 192 192 192, saturation = 0 \<rparr> < 0.5"
  by (simp add: totalScore_def Let_def) argo

lemma green_score:
  "0.5 < totalScore \<lparr> count = 1, c_rgb = (0, 168, 0),
      c_luminance = getLuminance 0 168 0, saturation = 1 \<rparr>"
  using luminance_green by (simp add: totalScore_def Let_def) argo

theorem tiered_selection_witness:
  "sampleLoop True [(200, 200, 200, 255), (0, 0, 0, 0), (0, 0, 0, 0), (0, 0, 0, 0), (0, 170, 0, 255)] []
     = [((192, 192, 192), \<lparr> count = 1, c_rgb = (192, 192, 192),
           c_luminance = getLuminance 192 192 192, saturation = 0 \<rparr>),
        ((0, 168, 0), \<lparr> count = 1, c_rgb = (0, 168, 0),
           c_luminance = getLuminance 0 168 0, saturation = 1 \<rparr>)]
   \<and> selectBestColor
       (sampleLoop True
          [(200, 200, 200, 255), (0, 0, 0, 0), (0, 0, 0, 0), (0, 0, 0, 0), (0, 170, 0, 255)] [])
       0.2 0.85 True
     = Some \<lparr> count = 1, c_rgb = (0, 168, 0), c_luminance = getLuminance 0 168 0, saturation = 1 \<rparr>
   \<and> selectBestColor
       (sampleLoop True
          [(255, 255, 255, 255), (255, 255, 255, 255), (255, 255, 255, 255), (255, 255, 255, 255)] [])
       0.2 0.85 True
     = Some \<lparr> count = 1, c_rgb = (240, 240, 240),
              c_luminance = getLuminance 240 240 240, saturation = 0 \<rparr>
   \<and> extractFromSplitView greenEnv 4 smallCanvasOptions
     = Inr \<lparr> hex = ''#00a800'', rgb = (0, 168, 0), luminance = getLuminance 0 168 0 \<rparr>
   \<and> extractFromSplitView whiteEnv 4 smallCanvasOptions
     = Inr \<lparr> hex = ''#4a5568'', rgb = (74, 85, 104), luminance = getLuminance 74 85 104 \<rparr>"
proof (intro conjI)
  let ?pixels = "[(200, 200, 200, 255), (0, 0, 0, 0), (0, 0, 0, 0), (0, 0, 0, 0), (0, 170, 0, 255)]
                   :: pixel list"
  let ?whites = "[(255, 255, 255, 255), (255, 255, 255, 255), (255, 255, 255, 255),
                  (255, 255, 255, 255)] :: pixel list"
  let ?greens = "[(0, 170, 0, 255), (0, 170, 0, 255), (0, 170, 0, 255), (0, 170, 0, 255)]
                   :: pixel list"
  let ?silver = "\<lparr> count = 1, c_rgb = (192, 192, 192),
                   c_luminance = getLuminance 192 192 192, saturation = 0 \<rparr>"
  let ?green = "\<lparr> count = 1, c_rgb = (0, 168, 0),
                  c_luminance = getLuminance 0 168 0, saturation = 1 \<rparr>"
  let ?white = "\<lparr> count = 1, c_rgb = (240, 240, 240),
                  c_luminance = getLuminance 240 240 240, saturation = 0 \<rparr>"
  let ?m = "sampleLoop True ?pixels []"
  let ?w = "sampleLoop True ?whites []"
  let ?g = "sampleLoop True ?greens []"
  show table: "?m = [((192, 192, 192), ?silver), ((0, 168, 0), ?green)]"
    by (rule silver_green_table)
  have green_in: "inBounds 0.2 0.85 ?green"
    using luminance_green by (simp add: inBounds_def)
  have white_out: "\<not> inBounds 0.2 0.85 ?white"
    using luminance_white_bright by (simp add: inBounds_def)
  have white_in: "inBounds 0.1 0.9 ?white"
    using luminance_white_bright by (simp add: inBounds_def)

  have "?m \<noteq> []"
    by (simp only: table) simp
  with tiered_selection [where m = ?m and ign = True and imageData = ?pixels
      and minL = "0.2" and maxL = "0.85" and boost = True]
  obtain c where sel: "selectBestColor ?m 0.2 0.85 True = Some c"
    and tier: "if \<exists>c' \<in> set (candidates ?m). inBounds 0.2 0.85 c' then bestScored ?m 0.2 0.85 c
            else if \<exists>c' \<in> set (candidates ?m). inBounds 0.1 0.9 c' then bestScored ?m 0.1 0.9 c
            else mostFrequent ?m c"
    by blast
  have "\<exists>c' \<in> set (candidates ?m). inBounds 0.2 0.85 c'"
    using green_in by (simp only: table candidates_def) simp
  with tier have best: "bestScored ?m 0.2 0.85 c"
    by (simp only: if_True)
  then have mem: "c = ?silver \<or> c = ?green"
    by (simp only: table bestScored_def candidates_def) simp
  from best green_in have "totalScore ?green \<le> totalScore c"
    by (simp only: table bestScored_def candidates_def) simp
  with mem silver_score green_score have "c = ?green"
    by auto
  with sel show "selectBestColor ?m 0.2 0.85 True = Some ?green"
    by simp

  have wtable: "?w = [((240, 240, 240), ?white)]"
    by (rule white_half_table)
  have "?w \<noteq> []"
    by (simp only: wtable) simp
  with tiered_selection [where m = ?w and ign = True and imageData = ?whites
      and minL = "0.2" and maxL = "0.85" and boost = True]
  obtain c where sel: "selectBestColor ?w 0.2 0.85 True = Some c"
    and tier: "if \<exists>c' \<in> set (candidates ?w). inBounds 0.2 0.85 c' then bestScored ?w 0.2 0.85 c
            else if \<exists>c' \<in> set (candidates ?w). inBounds 0.1 0.9 c' then bestScored ?w 0.1 0.9 c
            else mostFrequent ?w c"
    by blast
  have strict: "\<not> (\<exists>c' \<in> set (candidates ?w). inBounds 0.2 0.85 c')"
    using white_out by (simp only: wtable candidates_def) simp
  have relaxed: "\<exists>c' \<in> set (candidates ?w). inBounds 0.1 0.9 c'"
    using white_in by (simp only: wtable candidates_def) simp
  from tier have "bestScored ?w 0.1 0.9 c"
    unfolding if_not_P [OF strict] if_P [OF relaxed] .
  then have "c = ?white"
    by (simp only: wtable bestScored_def candidates_def) simp
  with sel show "selectBestColor ?w 0.2 0.85 True = Some ?white"
    by simp

  have opts: "?g = analyzeImageData ?greens smallCanvasOptions"
    "?w = analyzeImageData ?whites smallCanvasOptions"
    "0.2 = orDefault (minLuminance smallCanvasOptions) 0.2"
    "0.85 = orDefault (maxLuminance smallCanvasOptions) 0.85"
    by (simp_all add: analyzeImageData_def smallCanvasOptions_def noOptions_def orDefault_def)
  have fb: "orDefault (fallbackColor smallCanvasOptions) ''#4a5568'' = ''#4a5568''"
    by (simp add: smallCanvasOptions_def noOptions_def orDefault_def)
  have floors: "nat \<lfloor>real (4::nat) * 0.67\<rfloor> = 2" "nat \<lfloor>real (4::nat) / 2\<rfloor> = 2"
    by simp_all

  have gtable: "?g = [((0, 168, 0), ?green)]"
    by (rule green_half_table)
  have gl: "getImageData greenEnv 0 (nat \<lfloor>real (4::nat) * 0.67\<rfloor>) (nat \<lfloor>real (4::nat) / 2\<rfloor>)
      (4 - nat \<lfloor>real (4::nat) * 0.67\<rfloor>) = Inr ?greens"
    unfolding floors using green_half [of 0] by simp
  have gr: "getImageData greenEnv (nat \<lfloor>real (4::nat) / 2\<rfloor>) (nat \<lfloor>real (4::nat) * 0.67\<rfloor>)
      (nat \<lfloor>real (4::nat) / 2\<rfloor>) (4 - nat \<lfloor>real (4::nat) * 0.67\<rfloor>) = Inr ?greens"
    unfolding floors using green_half [of 2] by simp
  have gin: "\<exists>c' \<in> set (candidates ?g). inBounds 0.2 0.85 c'"
    using green_in by (simp only: gtable candidates_def) simp
  have "if (\<exists>c' \<in> set (candidates ?g). inBounds 0.2 0.85 c')
            \<and> (\<exists>c' \<in> set (candidates ?g). inBounds 0.2 0.85 c')
         then \<exists>cl cr. bestScored ?g 0.2 0.85 cl \<and> bestScored ?g 0.2 0.85 cr
                \<and> extractFromSplitView greenEnv 4 smallCanvasOptions
                    = Inr (fromCandidate (if regionScore cl > regionScore cr then cl else cr))
         else if \<exists>c' \<in> set (candidates ?g). inBounds 0.2 0.85 c'
         then \<exists>cl. bestScored ?g 0.2 0.85 cl
                \<and> extractFromSplitView greenEnv 4 smallCanvasOptions = Inr (fromCandidate cl)
         else if \<exists>c' \<in> set (candidates ?g). inBounds 0.2 0.85 c'
         then \<exists>cr. bestScored ?g 0.2 0.85 cr
                \<and> extractFromSplitView greenEnv 4 smallCanvasOptions = Inr (fromCandidate cr)
         else extractFromSplitView greenEnv 4 smallCanvasOptions
                = Inr (createFallbackColor
                         (orDefault (fallbackColor smallCanvasOptions) ''#4a5568''))"
    by (rule tiered_selection [where env = greenEnv and n = 4 and leftData = ?greens
          and rightData = ?greens and options = smallCanvasOptions and ml = ?g and mr = ?g
          and lo = "0.2" and hi = "0.85", THEN conjunct2, THEN conjunct1, THEN mp])
      (intro conjI gl gr opts)
  then obtain cl cr where "bestScored ?g 0.2 0.85 cl" "bestScored ?g 0.2 0.85 cr"
    and res: "extractFromSplitView greenEnv 4 smallCanvasOptions
         = Inr (fromCandidate (if regionScore cl > regionScore cr then cl else cr))"
    unfolding if_P [OF conjI [OF gin gin]] by blast
  then have "cl = ?green" "cr = ?green"
    by (simp_all only: gtable bestScored_def candidates_def) simp_all
  with res show "extractFromSplitView greenEnv 4 smallCanvasOptions
     = Inr \<lparr> hex = ''#00a800'', rgb = (0, 168, 0), luminance = getLuminance 0 168 0 \<rparr>"
    by (simp add: fromCandidate_def rgbToHex_def toHex_values)

  have wl: "getImageData whiteEnv 0 (nat \<lfloor>real (4::nat) * 0.67\<rfloor>) (nat \<lfloor>real (4::nat) / 2\<rfloor>)
      (4 - nat \<lfloor>real (4::nat) * 0.67\<rfloor>) = Inr ?whites"
    unfolding floors using white_half [of 0] by simp
  have wr: "getImageData whiteEnv (nat \<lfloor>real (4::nat) / 2\<rfloor>) (nat \<lfloor>real (4::nat) * 0.67\<rfloor>)
      (nat \<lfloor>real (4::nat) / 2\<rfloor>) (4 - nat \<lfloor>real (4::nat) * 0.67\<rfloor>) = Inr ?whites"
    unfolding floors using white_half [of 2] by simp
  from strict have neither: "\<not> ((\<exists>c' \<in> set (candidates ?w). inBounds 0.2 0.85 c')
            \<and> (\<exists>c' \<in> set (candidates ?w). inBounds 0.2 0.85 c'))"
    by blast
  have "if (\<exists>c' \<in> set (candidates ?w). inBounds 0.2 0.85 c')
            \<and> (\<exists>c' \<in> set (candidates ?w). inBounds 0.2 0.85 c')
         then \<exists>cl cr. bestScored ?w 0.2 0.85 cl \<and> bestScored ?w 0.2 0.85 cr
                \<and> extractFromSplitView whiteEnv 4 smallCanvasOptions
                    = Inr (fromCandidate (if regionScore cl > regionScore cr then cl else cr))
         else if \<exists>c' \<in> set (candidates ?w). inBounds 0.2 0.85 c'
         then \<exists>cl. bestScored ?w 0.2 0.85 cl
                \<and> extractFromSplitView whiteEnv 4 smallCanvasOptions = Inr (fromCandidate cl)
         else if \<exists>c' \<in> set (candidates ?w). inBounds 0.2 0.85 c'
         then \<exists>cr. bestScored ?w 0.2 0.85 cr
                \<and> extractFromSplitView whiteEnv 4 smallCanvasOptions = Inr (fromCandidate cr)
         else extractFromSplitView whiteEnv 4 smallCanvasOptions
                = Inr (createFallbackColor
                         (orDefault (fallbackColor smallCanvasOptions) ''#4a5568''))"
    by (rule tiered_selection [where env = whiteEnv and n = 4 and leftData = ?whites
          and rightData = ?whites and options = smallCanvasOptions and ml = ?w and mr = ?w
          and lo = "0.2" and hi = "0.85", THEN conjunct2, THEN conjunct1, THEN mp])
      (intro conjI wl wr opts)
  then have "extractFromSplitView whiteEnv 4 smallCanvasOptions
      = Inr (createFallbackColor (orDefault (fallbackColor smallCanvasOptions) ''#4a5568''))"
    unfolding if_not_P [OF neither] if_not_P [OF strict] .
  then show "extractFromSplitView whiteEnv 4 smallCanvasOptions
     = Inr \<lparr> hex = ''#4a5568'', rgb = (74, 85, 104), luminance = getLuminance 74 85 104 \<rparr>"
    by (simp add: fb fallback_4a5568)
qed

subsection \<open>From RGB to HSL and back\<close>

lemma hue2rgb_unit:
  assumes "0 \<le> t" and "t \<le> 1"
  shows "hue2rgb p q t =
     (if t < 1/6 then p + (q - p) * 6 * t
      else if t < 1/2 then q
      else if t < 2/3 then p + (q - p) * (2/3 - t) * 6
      else p)"
  using assms by (simp add: hue2rgb_def)

lemma hue2rgb_neg: "t < 0 \<Longrightarrow> - 1 \<le> t \<Longrightarrow> hue2rgb p q t = hue2rgb p q (t + 1)"
  by (simp add: hue2rgb_def)

lemma hue2rgb_over: "1 < t \<Longrightarrow> t \<le> 2 \<Longrightarrow> hue2rgb p q t = hue2rgb p q (t - 1)"
  by (simp add: hue2rgb_def)

lemma hue2rgb_rise:
  assumes "0 \<le> k" and "k \<le> 1"
  shows "hue2rgb p q (k / 6) = p + (q - p) * k"
proof (cases "k = 1")
  case True
  have "hue2rgb p q (1 / 6) = q"
    by (simp add: hue2rgb_unit)
  with True show ?thesis by simp
next
  case False
  with assms have "k / 6 < 1 / 6" "0 \<le> k / 6" "k / 6 \<le> 1" by simp_all
  then show ?thesis by (simp add: hue2rgb_unit)
qed

lemma hue2rgb_top:
  assumes "1 \<le> k" and "k \<le> 3"
  shows "hue2rgb p q (k / 6) = q"
proof (cases "k = 3")
  case True
  have "hue2rgb p q (3 / 6) = p + (q - p) * (2/3 - 1/2) * 6"
    by (simp add: hue2rgb_unit)
  also have "\<dots> = q" by (simp add: diff_divide_distrib)
  finally show ?thesis using True by simp
next
  case False
  with assms have "\<not> k / 6 < 1 / 6" "k / 6 < 1 / 2" "0 \<le> k / 6" "k / 6 \<le> 1" by simp_all
  then show ?thesis by (simp add: hue2rgb_unit)
qed

lemma hue2rgb_fall:
  assumes "3 \<le> k" and "k \<le> 4"
  shows "hue2rgb p q (k / 6) = p + (q - p) * (4 - k)"
proof (cases "k = 4")
  case True
  have "hue2rgb p q (4 / 6) = p"
    by (simp add: hue2rgb_unit)
  with True show ?thesis by simp
next
  case False
  with assms have c: "\<not> k / 6 < 1 / 6" "\<not> k / 6 < 1 / 2" "k / 6 < 2 / 3" "0 \<le> k / 6" "k / 6 \<le> 1"
    by simp_all
  have "(2 / 3 - k / 6) * 6 = 4 - k" by simp
  then have "(q - p) * (2 / 3 - k / 6) * 6 = (q - p) * (4 - k)"
    by (simp only: mult.assoc)
  with c show ?thesis by (simp only: hue2rgb_unit if_False if_True)
qed

lemma hue2rgb_low:
  assumes "4 \<le> k" and "k \<le> 6"
  shows "hue2rgb p q (k / 6) = p"
proof -
  from assms have "\<not> k / 6 < 1 / 6" "\<not> k / 6 < 1 / 2" "\<not> k / 6 < 2 / 3" "0 \<le> k / 6" "k / 6 \<le> 1"
    by simp_all
  then show ?thesis by (simp only: hue2rgb_unit if_False)
qed


text \<open>Lightness and saturation determine the two levels \<open>p\<close> and \<open>q\<close>.\<close>

lemma hsl_levels:
  fixes mx mn :: real
  assumes "0 \<le> mn" and "mn < mx" and "mx \<le> 1"
    and l: "l = (mx + mn) / 2"
    and s: "s = (if l > 0.5 then (mx - mn) / (2 - mx - mn) else (mx - mn) / (mx + mn))"
    and q: "q = (if l < 0.5 then l * (1 + s) else l + s - l * s)"
  shows "s \<noteq> 0 \<and> q = mx \<and> 2 * l - q = mn"
proof -
  have pos: "0 < mx + mn" "0 < 2 - mx - mn" "0 < mx - mn"
    using assms(1-3) by simp_all
  have s0: "s \<noteq> 0"
    using pos by (simp add: s)
  have "q = mx"
  proof (cases "l > 0.5")
    case True
    then have "s * (2 - mx - mn) = mx - mn"
      using pos by (simp add: s)
    then have "s * (1 - l) = (mx - mn) / 2"
      by (simp add: l algebra_simps)
    moreover from True have "q = l + s * (1 - l)"
      by (simp add: q algebra_simps)
    ultimately have "q = l + (mx - mn) / 2"
      by simp
    then show ?thesis
      unfolding l by argo
  next
    case False
    then have "s * (mx + mn) = mx - mn"
      using pos by (simp add: s)
    moreover have "l * s = s * (mx + mn) / 2"
      unfolding l by (simp add: mult.commute)
    ultimately have sd: "l * s = (mx - mn) / 2"
      by simp
    show ?thesis
    proof (cases "l < 0.5")
      case True
      then have "q = l + l * s" by (simp add: q algebra_simps)
      with sd have "q = l + (mx - mn) / 2" by simp
      then show ?thesis unfolding l by argo
    next
      case half: False
      with False have one: "mx + mn = 1" by (simp add: l)
      then have lh: "l = 1 / 2" by (simp add: l)
      from half have "q = l + s - l * s" by (simp add: q)
      then have "q = 1 / 2 + s - s / 2" unfolding lh by simp
      moreover from sd have "s = mx - mn" unfolding lh by simp
      ultimately show ?thesis using one by argo
    qed
  qed
  moreover from this have "2 * l - q = mn"
    unfolding l by argo
  ultimately show ?thesis
    using s0 by simp
qed


text \<open>The three channels as points of the hue circle, in sixths.\<close>

lemma hue2rgb_sixths:
  "hue2rgb p q (h / 6 + 1 / 3) = hue2rgb p q ((h + 2) / 6)"
  "hue2rgb p q (h / 6 - 1 / 3) = hue2rgb p q ((h - 2) / 6)"
proof -
  have up: "h / 6 + 1 / 3 = (h + 2) / 6"
    by (simp add: add_divide_distrib)
  have down: "h / 6 - 1 / 3 = (h - 2) / 6"
    by (simp add: diff_divide_distrib)
  show "hue2rgb p q (h / 6 + 1 / 3) = hue2rgb p q ((h + 2) / 6)"
    by (simp only: up)
  show "hue2rgb p q (h / 6 - 1 / 3) = hue2rgb p q ((h - 2) / 6)"
    by (simp only: down)
qed

lemma hue2rgb_wrap_down:
  assumes "6 < k" and "k \<le> 12"
  shows "hue2rgb p q (k / 6) = hue2rgb p q ((k - 6) / 6)"
proof -
  have e: "(k - 6) / 6 = k / 6 - 1"
    by (simp add: diff_divide_distrib)
  from assms have "1 < k / 6" "k / 6 \<le> 2"
    by simp_all
  then show ?thesis
    unfolding e by (rule hue2rgb_over)
qed

lemma hue2rgb_wrap_up:
  assumes "k < 0" and "- 6 \<le> k"
  shows "hue2rgb p q (k / 6) = hue2rgb p q ((k + 6) / 6)"
proof -
  have e: "(k + 6) / 6 = k / 6 + 1"
    by (simp add: add_divide_distrib)
  from assms have "k / 6 < 0" "- 1 \<le> k / 6"
    by simp_all
  then show ?thesis
    unfolding e by (rule hue2rgb_neg)
qed

lemma ratio_bounds:
  fixes a d :: real
  assumes "0 \<le> a" and "a \<le> d" and "0 < d"
  shows "0 \<le> a / d" and "a / d \<le> 1" and "d * (a / d) = a"
  using assms by simp_all

lemma hsl_hue:
  fixes r g b :: real
  assumes mx: "mx = max r (max g b)" and mn: "mn = min r (min g b)" and ne: "mx \<noteq> mn"
    and h: "h = (if mx = r then (g - b) / (mx - mn) + (if g < b then 6 else 0)
                 else if mx = g then (b - r) / (mx - mn) + 2
                 else (r - g) / (mx - mn) + 4)"
  shows "hue2rgb mn mx (h / 6 + 1 / 3) = r \<and> hue2rgb mn mx (h / 6) = g
       \<and> hue2rgb mn mx (h / 6 - 1 / 3) = b"
proof -
  let ?d = "mx - mn"
  have d: "0 < ?d"
    using ne by (simp add: mx mn)
  consider
      (r_up) "mx = r" "b \<le> g"
    | (r_down) "mx = r" "g < b"
    | (g_up) "mx \<noteq> r" "mx = g" "r \<le> b"
    | (g_down) "mx \<noteq> r" "mx = g" "b < r"
    | (b_up) "mx \<noteq> r" "mx \<noteq> g" "mx = b" "g \<le> r"
    | (b_down) "mx \<noteq> r" "mx \<noteq> g" "mx = b" "r < g"
    using mx by linarith
  then show ?thesis
  proof cases
    case r_up
    let ?x = "(g - b) / ?d"
    have low: "mn = b" using r_up mx mn by linarith
    have hx: "h = ?x" using r_up by (simp add: h)
    have "0 \<le> g - b" "g - b \<le> ?d" using r_up low mx by linarith+
    from ratio_bounds [OF this d] have x: "0 \<le> ?x" "?x \<le> 1" "?d * ?x = g - b" .
    have "hue2rgb mn mx ((?x + 2) / 6) = mx"
      using x by (intro hue2rgb_top) linarith+
    moreover have "hue2rgb mn mx (?x / 6) = mn + ?d * ?x"
      using x by (intro hue2rgb_rise)
    moreover have "hue2rgb mn mx ((?x - 2) / 6) = mn"
    proof -
      have "hue2rgb mn mx ((?x - 2) / 6) = hue2rgb mn mx ((?x - 2 + 6) / 6)"
        using x by (intro hue2rgb_wrap_up) linarith+
      also have "\<dots> = mn"
        using x by (intro hue2rgb_low) linarith+
      finally show ?thesis .
    qed
    ultimately show ?thesis
      unfolding hue2rgb_sixths hx using x(3) r_up low by simp
  next
    case r_down
    let ?y = "(b - g) / ?d"
    have low: "mn = g" using r_down mx mn by linarith
    have hx: "h = 6 - ?y" using r_down by (simp add: h diff_divide_distrib)
    have "0 \<le> b - g" "b - g \<le> ?d" using r_down low mx by linarith+
    from ratio_bounds [OF this d] have y: "0 \<le> ?y" "?y \<le> 1" "?d * ?y = b - g" .
    have "hue2rgb mn mx ((6 - ?y + 2) / 6) = mx"
    proof -
      have "hue2rgb mn mx ((6 - ?y + 2) / 6) = hue2rgb mn mx ((6 - ?y + 2 - 6) / 6)"
        using y by (intro hue2rgb_wrap_down) linarith+
      also have "\<dots> = mx"
        using y by (intro hue2rgb_top) linarith+
      finally show ?thesis .
    qed
    moreover have "hue2rgb mn mx ((6 - ?y) / 6) = mn"
      using y by (intro hue2rgb_low) linarith+
    moreover have "hue2rgb mn mx ((6 - ?y - 2) / 6) = mn + ?d * (4 - (6 - ?y - 2))"
      using y by (intro hue2rgb_fall) linarith+
    ultimately show ?thesis
      unfolding hue2rgb_sixths hx using y(3) r_down low by simp
  next
    case g_up
    let ?x = "(b - r) / ?d"
    have low: "mn = r" using g_up mx mn by linarith
    have hx: "h = 2 + ?x" using g_up by (simp add: h)
    have "0 \<le> b - r" "b - r \<le> ?d" using g_up low mx by linarith+
    from ratio_bounds [OF this d] have x: "0 \<le> ?x" "?x \<le> 1" "?d * ?x = b - r" .
    have "hue2rgb mn mx ((2 + ?x + 2) / 6) = mn"
      using x by (intro hue2rgb_low) linarith+
    moreover have "hue2rgb mn mx ((2 + ?x) / 6) = mx"
      using x by (intro hue2rgb_top) linarith+
    moreover have "hue2rgb mn mx ((2 + ?x - 2) / 6) = mn + ?d * (2 + ?x - 2)"
      using x by (intro hue2rgb_rise) linarith+
    ultimately show ?thesis
      unfolding hue2rgb_sixths hx using x(3) g_up low by simp
  next
    case g_down
    let ?y = "(r - b) / ?d"
    have low: "mn = b" using g_down mx mn by linarith
    have hx: "h = 2 - ?y" using g_down by (simp add: h diff_divide_distrib)
    have "0 \<le> r - b" "r - b \<le> ?d" using g_down low mx by linarith+
    from ratio_bounds [OF this d] have y: "0 \<le> ?y" "?y \<le> 1" "?d * ?y = r - b" .
    have ypos: "0 < ?y" using g_down d by simp
    have "hue2rgb mn mx ((2 - ?y + 2) / 6) = mn + ?d * (4 - (2 - ?y + 2))"
      using y by (intro hue2rgb_fall) linarith+
    moreover have "hue2rgb mn mx ((2 - ?y) / 6) = mx"
      using y by (intro hue2rgb_top) linarith+
    moreover have "hue2rgb mn mx ((2 - ?y - 2) / 6) = mn"
    proof -
      have "hue2rgb mn mx ((2 - ?y - 2) / 6) = hue2rgb mn mx ((2 - ?y - 2 + 6) / 6)"
        using y ypos by (intro hue2rgb_wrap_up) linarith+
      also have "\<dots> = mn"
        using y by (intro hue2rgb_low) linarith+
      finally show ?thesis .
    qed
    ultimately show ?thesis
      unfolding hue2rgb_sixths hx using y(3) g_down low by simp
  next
    case b_up
    let ?x = "(r - g) / ?d"
    have low: "mn = g" using b_up mx mn by linarith
    have hx: "h = 4 + ?x" using b_up by (simp add: h)
    have "0 \<le> r - g" "r - g \<le> ?d" using b_up low mx by linarith+
    from ratio_bounds [OF this d] have x: "0 \<le> ?x" "?x \<le> 1" "?d * ?x = r - g" .
    have "hue2rgb mn mx ((4 + ?x + 2) / 6) = mn + ?d * ?x"
    proof (cases "?x = 0")
      case True
      have "hue2rgb mn mx (6 / 6) = mn"
        by (intro hue2rgb_low) simp_all
      then have "hue2rgb mn mx ((4 + 0 + 2) / 6) = mn + ?d * 0"
        by simp
      then show ?thesis
        by (simp only: True)
    next
      case False
      with x have xpos: "0 < ?x" by linarith
      have "hue2rgb mn mx ((4 + ?x + 2) / 6) = hue2rgb mn mx ((4 + ?x + 2 - 6) / 6)"
        using x xpos by (intro hue2rgb_wrap_down) linarith+
      also have "\<dots> = mn + ?d * (4 + ?x + 2 - 6)"
        using x by (intro hue2rgb_rise) linarith+
      finally show ?thesis by simp
    qed
    moreover have "hue2rgb mn mx ((4 + ?x) / 6) = mn"
      using x by (intro hue2rgb_low) linarith+
    moreover have "hue2rgb mn mx ((4 + ?x - 2) / 6) = mx"
      using x by (intro hue2rgb_top) linarith+
    ultimately show ?thesis
      unfolding hue2rgb_sixths hx using x(3) b_up low by simp
  next
    case b_down
    let ?y = "(g - r) / ?d"
    have low: "mn = r" using b_down mx mn by linarith
    have hx: "h = 4 - ?y" using b_down by (simp add: h diff_divide_distrib)
    have "0 \<le> g - r" "g - r \<le> ?d" using b_down low mx by linarith+
    from ratio_bounds [OF this d] have y: "0 \<le> ?y" "?y \<le> 1" "?d * ?y = g - r" .
    have "hue2rgb mn mx ((4 - ?y + 2) / 6) = mn"
      using y by (intro hue2rgb_low) linarith+
    moreover have "hue2rgb mn mx ((4 - ?y) / 6) = mn + ?d * (4 - (4 - ?y))"
      using y by (intro hue2rgb_fall) linarith+
    moreover have "hue2rgb mn mx ((4 - ?y - 2) / 6) = mx"
      using y by (intro hue2rgb_top) linarith+
    ultimately show ?thesis
      unfolding hue2rgb_sixths hx using y(3) b_down low by simp
  qed
qed


lemma round_channel: "round (real_of_int c / 255 * 255) = c"
  by simp

lemma hsl_round_trip_exact:
  assumes "0 \<le> r0" "r0 \<le> 255" "0 \<le> g0" "g0 \<le> 255" "0 \<le> b0" "b0 \<le> 255"
  shows "(case rgbToHsl r0 g0 b0 of (h, s, l) \<Rightarrow> hslToRgb h s l) = (r0, g0, b0)"
proof -
  define r g b where "r = real_of_int r0 / 255" and "g = real_of_int g0 / 255"
    and "b = real_of_int b0 / 255"
  define mx mn where "mx = max r (max g b)" and "mn = min r (min g b)"
  define l where "l = (mx + mn) / 2"
  have rng: "0 \<le> r" "r \<le> 1" "0 \<le> g" "g \<le> 1" "0 \<le> b" "b \<le> 1"
    using assms by (simp_all add: r_def g_def b_def)
  have rounded: "round (r * 255) = r0" "round (g * 255) = g0" "round (b * 255) = b0"
    by (simp_all add: r_def g_def b_def)
  show ?thesis
  proof (cases "mx = mn")
    case True
    then have same: "r = mx" "g = mx" "b = mx"
      unfolding mx_def mn_def by linarith+
    have hsl: "rgbToHsl r0 g0 b0 = (0 * 360, 0, l)"
      using True
      unfolding rgbToHsl_def Let_def l_def mx_def mn_def r_def g_def b_def
      by (simp only: if_False simp_thms)
    have "l = mx"
      using True by (simp add: l_def)
    with same rounded have "round (l * 255) = r0" "round (l * 255) = g0" "round (l * 255) = b0"
      by simp_all
    then have "hslToRgb (0 * 360) 0 l = (r0, g0, b0)"
      by (simp add: hslToRgb_def)
    then show ?thesis
      by (simp only: hsl prod.case)
  next
    case False
    define d where "d = mx - mn"
    define s where "s = (if l > 0.5 then d / (2 - mx - mn) else d / (mx + mn))"
    define h where "h = (if mx = r then (g - b) / d + (if g < b then 6 else 0)
                         else if mx = g then (b - r) / d + 2
                         else (r - g) / d + 4)"
    define q where "q = (if l < 0.5 then l * (1 + s) else l + s - l * s)"
    have hsl: "rgbToHsl r0 g0 b0 = (h / 6 * 360, s, l)"
      using False
      unfolding rgbToHsl_def Let_def h_def s_def d_def l_def mx_def mn_def r_def g_def b_def
      by (simp only: if_True simp_thms)
    have bounds: "0 \<le> mn" "mn < mx" "mx \<le> 1"
      using rng False unfolding mx_def mn_def by linarith+
    have levels: "s \<noteq> 0 \<and> q = mx \<and> 2 * l - q = mn"
      using bounds l_def s_def [unfolded d_def] q_def by (rule hsl_levels)
    from levels have s0: "s \<noteq> 0" and qm: "q = mx" and pm: "2 * l - mx = mn"
      by simp_all
    have hue: "hue2rgb mn mx (h / 6 + 1 / 3) = r \<and> hue2rgb mn mx (h / 6) = g
       \<and> hue2rgb mn mx (h / 6 - 1 / 3) = b"
      using mx_def mn_def False h_def [unfolded d_def] by (rule hsl_hue)
    have "hslToRgb (h / 6 * 360) s l =
        (round (hue2rgb (2 * l - q) q (h / 6 + 1 / 3) * 255),
         round (hue2rgb (2 * l - q) q (h / 6) * 255),
         round (hue2rgb (2 * l - q) q (h / 6 - 1 / 3) * 255))"
      unfolding hslToRgb_def Let_def q_def using s0 by simp
    also have "\<dots> = (r0, g0, b0)"
      unfolding qm pm using hue rounded by simp
    finally show ?thesis
      by (simp only: hsl prod.case)
  qed
qed

text \<open>
  Claim C8. For integer channels between 0 and 255, \<open>rgbToHsl\<close> followed by \<open>hslToRgb\<close>
  gives back each channel within 1 of the original. (Over the reals the conversion is exact,
  \<open>hsl_round_trip_exact\<close>; the tolerance of the claim absorbs the rounding of the double
  arithmetic, which is not modelled.)
\<close>

theorem hsl_round_trip:
  assumes "0 \<le> r" "r \<le> 255" "0 \<le> g" "g \<le> 255" "0 \<le> b" "b \<le> 255"
  shows "case rgbToHsl r g b of (h, s, l) \<Rightarrow>
           (case hslToRgb h s l of (r', g', b') \<Rightarrow>
              \<bar>r' - r\<bar> \<le> 1 \<and> \<bar>g' - g\<bar> \<le> 1 \<and> \<bar>b' - b\<bar> \<le> 1)"
  using hsl_round_trip_exact [OF assms] by (auto split: prod.splits)

theorem hsl_round_trip_witness:
  "case rgbToHsl 200 100 50 of (h, s, l) \<Rightarrow>
     (case hslToRgb h s l of (r', g', b') \<Rightarrow>
        \<bar>r' - 200\<bar> \<le> 1 \<and> \<bar>g' - 100\<bar> \<le> 1 \<and> \<bar>b' - 50\<bar> \<le> 1)"
  using hsl_round_trip [of 200 100 50] by simp

end
